theory Spec2Isabelle
  imports Complex_Main "HOL-Library.AList"
begin

section \<open>Values of the program\<close>

text \<open>
  A thrown JavaScript value: every \<^verbatim>\<open>throw\<close> of the bot and of the libraries it calls
  raises an \<^verbatim>\<open>Error\<close> carrying a message.
\<close>

datatype error = Error string

text \<open>
  The arithmetic of JavaScript's \<^verbatim>\<open>number\<close> (IEEE-754 doubles) is not fixed here: the
  operations are parameters, so every theorem holds for whatever they compute.
  \<open>n_lessThan\<close> is the abstract relational comparison of ECMAScript, whose result is
  undefined (\<open>None\<close>) when an operand is NaN; the four comparison operators of the
  language are derived from it as the standard derives them.
\<close>

record 'n js_number =
  n_add :: "'n \<Rightarrow> 'n \<Rightarrow> 'n"
  n_sub :: "'n \<Rightarrow> 'n \<Rightarrow> 'n"
  n_mul :: "'n \<Rightarrow> 'n \<Rightarrow> 'n"
  n_div :: "'n \<Rightarrow> 'n \<Rightarrow> 'n"
  n_abs :: "'n \<Rightarrow> 'n"
  n_lessThan :: "'n \<Rightarrow> 'n \<Rightarrow> bool option"
  n_lit :: "int \<Rightarrow> 'n"
  n_of_sqrtPriceX64 :: "int \<Rightarrow> 'n"
  n_fromBN :: "int \<Rightarrow> nat \<Rightarrow> 'n"

definition js_lt :: "'n js_number \<Rightarrow> 'n \<Rightarrow> 'n \<Rightarrow> bool" where
  "js_lt num a b = (n_lessThan num a b = Some True)"

definition js_gt :: "'n js_number \<Rightarrow> 'n \<Rightarrow> 'n \<Rightarrow> bool" where
  "js_gt num a b = (n_lessThan num b a = Some True)"

definition js_le :: "'n js_number \<Rightarrow> 'n \<Rightarrow> 'n \<Rightarrow> bool" where
  "js_le num a b = (n_lessThan num b a = Some False)"

definition js_ge :: "'n js_number \<Rightarrow> 'n \<Rightarrow> 'n \<Rightarrow> bool" where
  "js_ge num a b = (n_lessThan num a b = Some False)"

text \<open>
  BigInt division rounds toward zero (\<^verbatim>\<open>amount * BigInt(95) / BigInt(100)\<close>), unlike
  \<open>div\<close> on \<open>int\<close>, which rounds down.
\<close>

definition bigint_div :: "int \<Rightarrow> int \<Rightarrow> int" where
  "bigint_div a b = sgn a * sgn b * (\<bar>a\<bar> div \<bar>b\<bar>)"

text \<open>The fields of the SDK's pool description that the bot reads.\<close>

record pool_data =
  mintA :: string
  mintB :: string
  mintADecimals :: nat
  mintBDecimals :: nat
  sqrtPriceX64 :: int

record Token =
  mint :: string
  symbol :: string
  decimals :: nat

text \<open>A position as \<^verbatim>\<open>Clmm.getPositionsByOwner\<close> returns it.\<close>

record sdk_position =
  sp_poolId :: string
  sp_nftMint :: string
  sp_tickLowerPrice :: int
  sp_tickUpperPrice :: int
  sp_liquidity :: int
  sp_mintA :: string
  sp_mintB :: string

record 'n PositionInfo =
  positionId :: string
  pi_tokenA :: Token
  pi_tokenB :: Token
  liquidity :: int
  lowerPrice :: "'n"
  upperPrice :: "'n"
  currentPrice :: "'n"
  inRange :: bool

text \<open>
  A parsed token account of the wallet, and the balance \<^verbatim>\<open>getTokenBalances\<close> keeps of
  it. \<open>ta_amount\<close> is the integer the RPC's decimal string denotes.
\<close>

record 'n token_account =
  ta_mint :: string
  ta_amount :: int
  ta_decimals :: nat
  ta_uiAmount :: "'n"

record 'n TokenBalance =
  tb_mint :: string
  amount :: int
  tb_decimals :: nat
  uiAmount :: "'n"

text \<open>
  The instruction an SDK builder encodes for a request: the builders either throw or
  return the instruction of the request they were given.
\<close>

datatype 'n instruction =
  OpenPosition (ix_lowerPrice: 'n) (ix_upperPrice: 'n) (amountMaxA: int) (amountMaxB: int)
  | ClosePosition string

type_synonym 'n transaction = "'n instruction list"

text \<open>
  A Discord notification. Its description and embed fields are formatted text that
  nothing in the bot reads back; the title and the colour are kept.
\<close>

record notification =
  title :: string
  color :: nat

datatype level = Debug | Info | Warn | Err

section \<open>The environment: configuration and external calls\<close>

record 'n config =
  minSolBalance :: "'n"
  poolId :: string
  priceRangePercent :: "'n"
  rebalanceThresholdPercent :: "'n"

text \<open>
  The calls that leave the program (the Raydium SDK, the Solana RPC connection, the
  Discord webhook, node-cron, the timer). Each reads and may change the outside world
  \<open>'w\<close>, and either throws (\<open>Inl\<close>) or returns (\<open>Inr\<close>).

  The two instruction builders of \<^verbatim>\<open>Clmm\<close> stand also for the constructors in their
  arguments (\<^verbatim>\<open>new PublicKey\<close>, \<^verbatim>\<open>new Price\<close>, \<^verbatim>\<open>new TokenAmount\<close>), which throw on a
  malformed value. \<open>cron_schedule\<close> is \<^verbatim>\<open>cron.schedule\<close> on the expression made from
  the configured interval, \<open>cronJob_stop\<close> the \<^verbatim>\<open>stop\<close> of the task it returned, and
  \<open>setTimeout_5000\<close> the wait of five seconds.

  \<open>raydiumService_getTokenAMint\<close> and \<open>raydiumService_getTokenBMint\<close> are called by
  \<^verbatim>\<open>checkWalletBalances\<close>, and the class \<^verbatim>\<open>RaydiumService\<close> does not define them:
  what the calls do is a parameter.
\<close>

record ('w, 'n) gateway =
  ClmmPoolUtils_fetchPoolInfo :: "'w \<Rightarrow> (error + pool_data option) \<times> 'w"
  Clmm_getPositionsByOwner :: "'w \<Rightarrow> (error + sdk_position list) \<times> 'w"
  Clmm_makeOpenPositionInstructionV2 :: "'n instruction \<Rightarrow> 'w \<Rightarrow> (error + unit) \<times> 'w"
  Clmm_makeClosePositionInstruction :: "'n instruction \<Rightarrow> 'w \<Rightarrow> (error + unit) \<times> 'w"
  connection_getBalance :: "'w \<Rightarrow> (error + 'n) \<times> 'w"
  connection_getParsedTokenAccountsByOwner :: "'w \<Rightarrow> (error + 'n token_account list) \<times> 'w"
  connection_getLatestBlockhash :: "'w \<Rightarrow> (error + string) \<times> 'w"
  sendAndConfirmTransaction :: "'n transaction \<Rightarrow> 'w \<Rightarrow> (error + string) \<times> 'w"
  webhook_send :: "notification \<Rightarrow> 'w \<Rightarrow> (error + unit) \<times> 'w"
  cron_schedule :: "'w \<Rightarrow> (error + nat) \<times> 'w"
  cronJob_stop :: "nat \<Rightarrow> 'w \<Rightarrow> 'w"
  setTimeout_5000 :: "'w \<Rightarrow> 'w"
  raydiumService_getTokenAMint :: "'w \<Rightarrow> (error + string) \<times> 'w"
  raydiumService_getTokenBMint :: "'w \<Rightarrow> (error + string) \<times> 'w"

record ('w, 'n) env =
  num :: "'n js_number"
  gw :: "('w, 'n) gateway"
  Config :: "'n config"
  webhook :: bool

section \<open>The state of the process\<close>

text \<open>
  The mutable fields of the singletons (\<^verbatim>\<open>raydiumService\<close>, \<^verbatim>\<open>poolMonitor\<close>,
  \<^verbatim>\<open>liquidityBot\<close>), the outside world, and a record of what the process has done to
  it: the notifications handed to \<^verbatim>\<open>sendNotification\<close>, the transactions passed to
  \<^verbatim>\<open>sendAndConfirmTransaction\<close> with what came back, the number of cron tasks
  scheduled and not stopped, and the lines logged.
\<close>

record ('w, 'n) sys =
  world :: "'w"
  poolInfo :: "pool_data option"
  tokenA :: "Token option"
  tokenB :: "Token option"
  lastCheckedPrice :: "'n option"
  isRunning :: bool
  cronJob :: "nat option"
  notified :: "notification list"
  submitted :: "('n transaction \<times> (error + string)) list"
  cronTasks :: nat
  logs :: "(level \<times> string) list"

section \<open>Asynchronous functions that may throw\<close>

type_synonym ('a, 's) async = "'s \<Rightarrow> (error + 'a) \<times> 's"

definition returnE :: "'a \<Rightarrow> ('a, 's) async" where
  "returnE a s = (Inr a, s)"

definition throwE :: "error \<Rightarrow> ('a, 's) async" where
  "throwE e s = (Inl e, s)"

definition bindE :: "('a, 's) async \<Rightarrow> ('a \<Rightarrow> ('b, 's) async) \<Rightarrow> ('b, 's) async" where
  "bindE m f s = (case m s of (Inl e, s') \<Rightarrow> (Inl e, s') | (Inr a, s') \<Rightarrow> f a s')"

definition tryCatch :: "('a, 's) async \<Rightarrow> (error \<Rightarrow> ('a, 's) async) \<Rightarrow> ('a, 's) async" where
  "tryCatch m h s = (case m s of (Inl e, s') \<Rightarrow> h e s' | (Inr a, s') \<Rightarrow> (Inr a, s'))"

text \<open>A synchronous computation that reads the state and may throw.\<close>

definition liftE :: "('s \<Rightarrow> error + 'a) \<Rightarrow> ('a, 's) async" where
  "liftE f s = (f s, s)"

text \<open>A state change that cannot throw.\<close>

definition modifyE :: "('s \<Rightarrow> 's) \<Rightarrow> (unit, 's) async" where
  "modifyE f s = (Inr (), f s)"

text \<open>An external call, run on the outside world of the state.\<close>

definition ext :: "('w \<Rightarrow> (error + 'a) \<times> 'w) \<Rightarrow> ('a, ('w, 'n) sys) async" where
  "ext f s = (case f (world s) of (r, w') \<Rightarrow> (r, s\<lparr>world := w'\<rparr>))"

definition logger :: "level \<Rightarrow> string \<Rightarrow> (unit, ('w, 'n) sys) async" where
  "logger l msg = modifyE (\<lambda>s. s\<lparr>logs := logs s @ [(l, msg)]\<rparr>)"

definition getE :: "('s \<Rightarrow> 'a) \<Rightarrow> ('a, 's) async" where
  "getE f s = (Inr (f s), s)"

section \<open>The Discord service\<close>

text \<open>
  \<^verbatim>\<open>sendNotification\<close> returns at once when no webhook is configured, and catches
  what \<^verbatim>\<open>webhook.send\<close> throws.
\<close>

definition sendNotification :: "('w, 'n) env \<Rightarrow> notification \<Rightarrow> (unit, ('w, 'n) sys) async" where
  "sendNotification env n =
     bindE (modifyE (\<lambda>s. s\<lparr>notified := notified s @ [n]\<rparr>)) (\<lambda>_.
       if \<not> webhook env
       then logger Debug ''Discord notification not sent: webhook not configured''
       else tryCatch
              (bindE (ext (webhook_send (gw env) n)) (\<lambda>_.
                 logger Debug ''Discord notification sent''))
              (\<lambda>error. logger Err ''Failed to send Discord notification''))"

datatype action = Created | Withdrawn | Rebalanced

fun action_name :: "action \<Rightarrow> string" where
  "action_name Created = ''Created''"
| "action_name Withdrawn = ''Withdrawn''"
| "action_name Rebalanced = ''Rebalanced''"

text \<open>The colours \<^verbatim>\<open>0x00ff00\<close>, \<^verbatim>\<open>0xffaa00\<close> and \<^verbatim>\<open>0x0099ff\<close>.\<close>

fun colors :: "action \<Rightarrow> nat" where
  "colors Created = 65280"
| "colors Withdrawn = 16755200"
| "colors Rebalanced = 39423"

definition sendPositionUpdate :: "('w, 'n) env \<Rightarrow> action \<Rightarrow> (unit, ('w, 'n) sys) async" where
  "sendPositionUpdate env a =
     sendNotification env \<lparr>title = ''Position '' @ action_name a, color = colors a\<rparr>"

text \<open>The title is \<^verbatim>\<open>'Bot Error'\<close> and the colour \<^verbatim>\<open>0xff0000\<close>, whatever the error.\<close>

definition sendErrorNotification :: "('w, 'n) env \<Rightarrow> error \<Rightarrow> (unit, ('w, 'n) sys) async" where
  "sendErrorNotification env error =
     sendNotification env \<lparr>title = ''Bot Error'', color = 16711680\<rparr>"

section \<open>The Solana service\<close>

definition getSolBalance :: "('w, 'n) env \<Rightarrow> ('n, ('w, 'n) sys) async" where
  "getSolBalance env =
     tryCatch
       (bindE (ext (connection_getBalance (gw env))) (\<lambda>balance.
          returnE (n_div (num env) balance (n_lit (num env) 1000000000))))
       (\<lambda>error. bindE (logger Err ''Failed to get SOL balance'') (\<lambda>_. throwE error))"

text \<open>
  The \<^verbatim>\<open>Map\<close> from mint to balance, in insertion order: \<^verbatim>\<open>balances.set\<close> replaces
  the value of a mint already present and appends a new one.
\<close>

definition balances_set ::
  "(string \<times> 'n TokenBalance) list \<Rightarrow> 'n token_account \<Rightarrow> (string \<times> 'n TokenBalance) list" where
  "balances_set balances account =
     AList.update (ta_mint account)
       \<lparr>tb_mint = ta_mint account, amount = ta_amount account,
        tb_decimals = ta_decimals account, uiAmount = ta_uiAmount account\<rparr> balances"

definition getTokenBalances ::
  "('w, 'n) env \<Rightarrow> ((string \<times> 'n TokenBalance) list, ('w, 'n) sys) async" where
  "getTokenBalances env =
     tryCatch
       (bindE (ext (connection_getParsedTokenAccountsByOwner (gw env))) (\<lambda>tokenAccounts.
          returnE (foldl balances_set [] tokenAccounts)))
       (\<lambda>error. bindE (logger Err ''Failed to get token balances'') (\<lambda>_. throwE error))"

text \<open>
  The call of \<^verbatim>\<open>sendAndConfirmTransaction\<close>, recorded with its outcome.
\<close>

definition submit :: "('w, 'n) env \<Rightarrow> 'n transaction \<Rightarrow> (string, ('w, 'n) sys) async" where
  "submit env tx s =
     (case sendAndConfirmTransaction (gw env) tx (world s) of
        (r, w') \<Rightarrow> (r, s\<lparr>world := w', submitted := submitted s @ [(tx, r)]\<rparr>))"

definition signAndSendTransaction ::
  "('w, 'n) env \<Rightarrow> 'n transaction \<Rightarrow> (string, ('w, 'n) sys) async" where
  "signAndSendTransaction env tx =
     tryCatch
       (bindE (ext (connection_getLatestBlockhash (gw env))) (\<lambda>blockhash.
        bindE (submit env tx) (\<lambda>signature.
        bindE (logger Info ''Transaction sent'') (\<lambda>_.
        returnE signature))))
       (\<lambda>error. bindE (logger Err ''Failed to send transaction'') (\<lambda>_. throwE error))"

section \<open>The Raydium service\<close>

definition getCurrentPrice :: "('w, 'n) env \<Rightarrow> ('w, 'n) sys \<Rightarrow> error + 'n" where
  "getCurrentPrice env s =
     (case poolInfo s of
        None \<Rightarrow> Inl (Error ''Pool info not initialized'')
      | Some info \<Rightarrow>
          let price = n_of_sqrtPriceX64 (num env) (sqrtPriceX64 info) in
          if map_option symbol (tokenA s) = Some ''USDC'' \<and> map_option symbol (tokenB s) = Some ''SOL''
          then Inr (n_div (num env) (n_lit (num env) 1) price)
          else Inr price)"

definition fetchPoolInfo :: "('w, 'n) env \<Rightarrow> (pool_data, ('w, 'n) sys) async" where
  "fetchPoolInfo env =
     tryCatch
       (bindE (ext (ClmmPoolUtils_fetchPoolInfo (gw env))) (\<lambda>poolData.
          case poolData of
            None \<Rightarrow> throwE (Error (''Pool not found: '' @ poolId (Config env)))
          | Some pd \<Rightarrow>
              bindE (modifyE (\<lambda>s. s\<lparr>poolInfo := Some pd,
                        tokenA := Some \<lparr>mint = mintA pd, symbol = ''SOL'', decimals = mintADecimals pd\<rparr>,
                        tokenB := Some \<lparr>mint = mintB pd, symbol = ''USDC'', decimals = mintBDecimals pd\<rparr>\<rparr>)) (\<lambda>_.
              bindE (liftE (getCurrentPrice env)) (\<lambda>price.
              bindE (logger Info ''Pool info fetched'') (\<lambda>_.
              returnE pd)))))
       (\<lambda>error. bindE (logger Err ''Failed to fetch pool info'') (\<lambda>_. throwE error))"

definition raydiumService_initialize :: "('w, 'n) env \<Rightarrow> (unit, ('w, 'n) sys) async" where
  "raydiumService_initialize env =
     tryCatch
       (bindE (fetchPoolInfo env) (\<lambda>_. logger Info ''Raydium service fully initialized''))
       (\<lambda>error. bindE (logger Err ''Failed to initialize Raydium service'') (\<lambda>_. throwE error))"

definition isPoolInitialized :: "(bool, ('w, 'n) sys) async" where
  "isPoolInitialized = getE (\<lambda>s. poolInfo s \<noteq> None)"

text \<open>
  The first lines of \<^verbatim>\<open>checkPrice\<close> and of \<^verbatim>\<open>createOptimalPosition\<close>:
  \<^verbatim>\<open>if (!await raydiumService.isPoolInitialized()) await raydiumService.initialize()\<close>.
\<close>

definition ensurePoolInitialized :: "('w, 'n) env \<Rightarrow> (unit, ('w, 'n) sys) async" where
  "ensurePoolInitialized env =
     bindE isPoolInitialized (\<lambda>initialized.
     if \<not> initialized then raydiumService_initialize env else returnE ())"

definition calculatePriceRange :: "('w, 'n) env \<Rightarrow> 'n \<Rightarrow> 'n \<times> 'n" where
  "calculatePriceRange env price =
     (let percent = n_div (num env) (priceRangePercent (Config env)) (n_lit (num env) 100);
          lower = n_mul (num env) price (n_sub (num env) (n_lit (num env) 1) percent);
          upper = n_mul (num env) price (n_add (num env) (n_lit (num env) 1) percent)
      in (lower, upper))"

definition createPosition :: "('w, 'n) env \<Rightarrow> int \<Rightarrow> int \<Rightarrow> (string, ('w, 'n) sys) async" where
  "createPosition env amountA amountB =
     tryCatch
       (bindE (getE (\<lambda>s. poolInfo s = None \<or> tokenA s = None \<or> tokenB s = None)) (\<lambda>missing.
        bindE (if missing then bindE (fetchPoolInfo env) (\<lambda>_. returnE ()) else returnE ()) (\<lambda>_.
        bindE (liftE (getCurrentPrice env)) (\<lambda>price.
        case calculatePriceRange env price of (lower, upper) \<Rightarrow>
        let createPositionInstruction = OpenPosition lower upper amountA amountB in
        bindE (ext (Clmm_makeOpenPositionInstructionV2 (gw env) createPositionInstruction)) (\<lambda>_.
        bindE (signAndSendTransaction env [createPositionInstruction]) (\<lambda>signature.
        bindE (sendPositionUpdate env Created) (\<lambda>_.
        bindE (logger Info ''Position created'') (\<lambda>_.
        returnE signature))))))))
       (\<lambda>error.
          bindE (logger Err ''Failed to create position'') (\<lambda>_.
          bindE (sendErrorNotification env error) (\<lambda>_.
          throwE error)))"

definition withdrawPosition :: "('w, 'n) env \<Rightarrow> string \<Rightarrow> (string, ('w, 'n) sys) async" where
  "withdrawPosition env posId =
     tryCatch
       (bindE (getE (\<lambda>s. poolInfo s = None)) (\<lambda>missing.
        bindE (if missing then bindE (fetchPoolInfo env) (\<lambda>_. returnE ()) else returnE ()) (\<lambda>_.
        let closePositionInstruction = ClosePosition posId in
        bindE (ext (Clmm_makeClosePositionInstruction (gw env) closePositionInstruction)) (\<lambda>_.
        bindE (signAndSendTransaction env [closePositionInstruction]) (\<lambda>signature.
        bindE (sendPositionUpdate env Withdrawn) (\<lambda>_.
        bindE (logger Info ''Position withdrawn'') (\<lambda>_.
        returnE signature)))))))
       (\<lambda>error.
          bindE (logger Err ''Failed to withdraw position'') (\<lambda>_.
          bindE (sendErrorNotification env error) (\<lambda>_.
          throwE error)))"

text \<open>
  The positions of the wallet in the configured pool. The callback of \<^verbatim>\<open>map\<close> reads
  \<^verbatim>\<open>this.tokenA!\<close> and \<^verbatim>\<open>this.tokenB!\<close>: on a position, a missing token is a
  \<^verbatim>\<open>TypeError\<close>.
\<close>

definition formatPosition ::
  "('w, 'n) env \<Rightarrow> Token \<Rightarrow> Token \<Rightarrow> 'n \<Rightarrow> sdk_position \<Rightarrow> 'n PositionInfo" where
  "formatPosition env tA tB price position =
     (let lower = n_fromBN (num env) (sp_tickLowerPrice position) (decimals tB);
          upper = n_fromBN (num env) (sp_tickUpperPrice position) (decimals tB)
      in \<lparr>positionId = sp_nftMint position,
          pi_tokenA = \<lparr>mint = sp_mintA position, symbol = symbol tA, decimals = decimals tA\<rparr>,
          pi_tokenB = \<lparr>mint = sp_mintB position, symbol = symbol tB, decimals = decimals tB\<rparr>,
          liquidity = sp_liquidity position,
          lowerPrice = lower,
          upperPrice = upper,
          currentPrice = price,
          inRange = (js_ge (num env) price lower \<and> js_le (num env) price upper)\<rparr>)"

definition getPositions :: "('w, 'n) env \<Rightarrow> ('n PositionInfo list, ('w, 'n) sys) async" where
  "getPositions env =
     tryCatch
       (bindE (getE (\<lambda>s. poolInfo s = None)) (\<lambda>missing.
        bindE (if missing then bindE (fetchPoolInfo env) (\<lambda>_. returnE ()) else returnE ()) (\<lambda>_.
        bindE (ext (Clmm_getPositionsByOwner (gw env))) (\<lambda>positions.
        let poolPositions = filter (\<lambda>p. sp_poolId p = poolId (Config env)) positions in
        bindE (liftE (getCurrentPrice env)) (\<lambda>price.
        liftE (\<lambda>s.
          if poolPositions = [] then Inr []
          else (case (tokenA s, tokenB s) of
                  (Some tA, Some tB) \<Rightarrow> Inr (map (formatPosition env tA tB price) poolPositions)
                | _ \<Rightarrow> Inl (Error ''TypeError: Cannot read properties of null''))))))))
       (\<lambda>error. bindE (logger Err ''Failed to get positions'') (\<lambda>_. throwE error))"

section \<open>The pool monitor\<close>

record 'n priceInfo =
  pr_currentPrice :: "'n"
  significantChange :: bool
  percentChange :: "'n option"

text \<open>The threshold the constructor of \<^verbatim>\<open>PoolMonitor\<close> stores.\<close>

definition priceChangeThreshold :: "('w, 'n) env \<Rightarrow> 'n" where
  "priceChangeThreshold env =
     n_div (num env) (rebalanceThresholdPercent (Config env)) (n_lit (num env) 100)"

definition checkPrice :: "('w, 'n) env \<Rightarrow> ('n priceInfo, ('w, 'n) sys) async" where
  "checkPrice env =
     tryCatch
       (bindE (ensurePoolInitialized env) (\<lambda>_.
        bindE (liftE (getCurrentPrice env)) (\<lambda>price.
        bindE (getE lastCheckedPrice) (\<lambda>last.
        let change =
              (case last of
                 None \<Rightarrow> None
               | Some lastPrice \<Rightarrow>
                   Some (n_div (num env) (n_abs (num env) (n_sub (num env) price lastPrice)) lastPrice));
            significant =
              (case change of
                 None \<Rightarrow> False
               | Some c \<Rightarrow> js_gt (num env) c (priceChangeThreshold env)) in
        bindE (if significant then logger Info ''Significant price change detected'' else returnE ()) (\<lambda>_.
        bindE (modifyE (\<lambda>s. s\<lparr>lastCheckedPrice := Some price\<rparr>)) (\<lambda>_.
        returnE \<lparr>pr_currentPrice = price, significantChange = significant,
                 percentChange = change\<rparr>))))))
       (\<lambda>error. bindE (logger Err ''Failed to check price'') (\<lambda>_. throwE error))"

record positionStatus =
  positionsCount :: nat
  outOfRangeCount :: nat

definition checkPositions :: "('w, 'n) env \<Rightarrow> (positionStatus, ('w, 'n) sys) async" where
  "checkPositions env =
     tryCatch
       (bindE (getPositions env) (\<lambda>positions.
        let outOfRangePositions = filter (\<lambda>position. \<not> inRange position) positions in
        bindE (logger Info ''Position status'') (\<lambda>_.
        returnE \<lparr>positionsCount = length positions,
                 outOfRangeCount = length outOfRangePositions\<rparr>)))
       (\<lambda>error. bindE (logger Err ''Failed to check positions'') (\<lambda>_. throwE error))"

record 'n balanceInfo =
  solBalance :: "'n"
  tokenBalances :: "(string \<times> 'n) list"

text \<open>The loop of \<^verbatim>\<open>checkWalletBalances\<close> over the entries of the balance map.\<close>

fun formatBalances ::
  "('w, 'n) env \<Rightarrow> (string \<times> 'n TokenBalance) list \<Rightarrow> (string \<times> 'n) list \<Rightarrow>
     ((string \<times> 'n) list, ('w, 'n) sys) async" where
  "formatBalances env [] formattedBalances s = (Inr formattedBalances, s)"
| "formatBalances env ((m, balance) # rest) formattedBalances s =
     (case ext (raydiumService_getTokenAMint (gw env)) s of
        (Inl e, s1) \<Rightarrow> (Inl e, s1)
      | (Inr a, s1) \<Rightarrow>
          if m = a
          then formatBalances env rest (formattedBalances @ [(''SOL'', uiAmount balance)]) s1
          else (case ext (raydiumService_getTokenBMint (gw env)) s1 of
                  (Inl e, s2) \<Rightarrow> (Inl e, s2)
                | (Inr b, s2) \<Rightarrow>
                    if m = b
                    then formatBalances env rest (formattedBalances @ [(''USDC'', uiAmount balance)]) s2
                    else formatBalances env rest (formattedBalances @ [(''Unknown'', uiAmount balance)]) s2))"

definition checkWalletBalances :: "('w, 'n) env \<Rightarrow> ('n balanceInfo, ('w, 'n) sys) async" where
  "checkWalletBalances env =
     tryCatch
       (bindE (getSolBalance env) (\<lambda>sol.
        bindE (getTokenBalances env) (\<lambda>balances.
        bindE (formatBalances env balances []) (\<lambda>formattedBalances.
        bindE (logger Info ''Wallet balances'') (\<lambda>_.
        bindE (if js_lt (num env) sol (minSolBalance (Config env))
               then bindE (logger Warn ''SOL balance below minimum threshold'') (\<lambda>_.
                    sendNotification env \<lparr>title = ''Low SOL Balance'', color = 16755200\<rparr>)
               else returnE ()) (\<lambda>_.
        returnE \<lparr>solBalance = sol, tokenBalances = formattedBalances\<rparr>))))))
       (\<lambda>error. bindE (logger Err ''Failed to check wallet balances'') (\<lambda>_. throwE error))"

section \<open>The position manager\<close>

text \<open>
  \<^verbatim>\<open>new BN(1000)\<close>. The comparison \<^verbatim>\<open>amount < minAmount\<close> of a BigInt with the BN
  object converts the object to its decimal string and the string to a BigInt, so it
  compares the integers.
\<close>

definition minAmount :: int where
  "minAmount = 1000"

text \<open>The \<^verbatim>\<open>try\<close> block of \<^verbatim>\<open>createOptimalPosition\<close>.\<close>

definition createOptimalPosition_try ::
  "('w, 'n) env \<Rightarrow> (string option, ('w, 'n) sys) async" where
  "createOptimalPosition_try env =
       (bindE (ensurePoolInitialized env) (\<lambda>_.
        bindE (getTokenBalances env) (\<lambda>balances.
        bindE (getPositions env) (\<lambda>positions.
        if length positions > 0
        then bindE (logger Info ''Active positions exist, skipping position creation'') (\<lambda>_.
             returnE None)
        else
        bindE (fetchPoolInfo env) (\<lambda>info.
        case (map_of balances (mintA info), map_of balances (mintB info)) of
          (Some tokenABalance, Some tokenBBalance) \<Rightarrow>
            if amount tokenABalance < minAmount \<or> amount tokenBBalance < minAmount
            then bindE (logger Warn ''Insufficient token balances for creating position'') (\<lambda>_.
                 returnE None)
            else
              let amountA = bigint_div (amount tokenABalance * 95) 100;
                  amountB = bigint_div (amount tokenBBalance * 95) 100 in
              bindE (logger Info ''Creating position'') (\<lambda>_.
              bindE (createPosition env amountA amountB) (\<lambda>signature.
              returnE (Some signature)))
        | _ \<Rightarrow>
            bindE (logger Warn ''Missing token balances needed for position'') (\<lambda>_.
            returnE None))))))"

definition createOptimalPosition :: "('w, 'n) env \<Rightarrow> (string option, ('w, 'n) sys) async" where
  "createOptimalPosition env =
     tryCatch (createOptimalPosition_try env)
       (\<lambda>error.
          bindE (logger Err ''Failed to create position'') (\<lambda>_.
          bindE (sendErrorNotification env error) (\<lambda>_.
          returnE None)))"

text \<open>The \<^verbatim>\<open>for\<close> loop of \<^verbatim>\<open>withdrawOutOfRangePositions\<close>, one position after the other.\<close>

fun withdrawEach ::
  "('w, 'n) env \<Rightarrow> 'n PositionInfo list \<Rightarrow> string list \<Rightarrow> (string list, ('w, 'n) sys) async" where
  "withdrawEach env [] signatures s = (Inr signatures, s)"
| "withdrawEach env (position # rest) signatures s =
     (case bindE (logger Info ''Withdrawing out-of-range position'') (\<lambda>_.
             withdrawPosition env (positionId position)) s of
        (Inl e, s1) \<Rightarrow> (Inl e, s1)
      | (Inr signature, s1) \<Rightarrow> withdrawEach env rest (signatures @ [signature]) s1)"

definition withdrawOutOfRangePositions :: "('w, 'n) env \<Rightarrow> (string list, ('w, 'n) sys) async" where
  "withdrawOutOfRangePositions env =
     tryCatch
       (bindE (getPositions env) (\<lambda>positions.
        let outOfRangePositions = filter (\<lambda>position. \<not> inRange position) positions in
        if length outOfRangePositions = 0
        then bindE (logger Info ''No out-of-range positions to withdraw'') (\<lambda>_. returnE [])
        else withdrawEach env outOfRangePositions []))
       (\<lambda>error.
          bindE (logger Err ''Failed to withdraw out-of-range positions'') (\<lambda>_.
          bindE (sendErrorNotification env error) (\<lambda>_.
          returnE [])))"

text \<open>\<^verbatim>\<open>!!signature\<close> on a string or \<^verbatim>\<open>null\<close>: the empty string is falsy too.\<close>

fun truthy :: "string option \<Rightarrow> bool" where
  "truthy None = False"
| "truthy (Some str) = (str \<noteq> [])"

definition rebalanceIfNeeded :: "('w, 'n) env \<Rightarrow> (bool, ('w, 'n) sys) async" where
  "rebalanceIfNeeded env =
     tryCatch
       (bindE (getPositions env) (\<lambda>positions.
        if length positions = 0
        then bindE (createOptimalPosition env) (\<lambda>signature. returnE (truthy signature))
        else
          let outOfRangePositions = filter (\<lambda>position. \<not> inRange position) positions in
          if length outOfRangePositions > 0
          then bindE (withdrawOutOfRangePositions env) (\<lambda>withdrawSignatures.
               if length withdrawSignatures > 0
               then bindE (modifyE (\<lambda>s. s\<lparr>world := setTimeout_5000 (gw env) (world s)\<rparr>)) (\<lambda>_.
                    bindE (createOptimalPosition env) (\<lambda>createSignature.
                    returnE (truthy createSignature)))
               else returnE False)
          else returnE False))
       (\<lambda>error.
          bindE (logger Err ''Failed to rebalance positions'') (\<lambda>_.
          bindE (sendErrorNotification env error) (\<lambda>_.
          returnE False)))"

section \<open>The bot\<close>

text \<open>
  Step 4 of \<^verbatim>\<open>runIteration\<close>: the flag \<^verbatim>\<open>shouldRebalance\<close> starts false and each of
  the three tests sets it, logging why.
\<close>

definition decide :: "'n priceInfo \<Rightarrow> positionStatus \<Rightarrow> (bool, ('w, 'n) sys) async" where
  "decide priceInfo positionInfo =
     bindE (returnE False) (\<lambda>shouldRebalance0.
     bindE (if significantChange priceInfo
            then bindE (logger Info ''Rebalancing due to significant price change'') (\<lambda>_. returnE True)
            else returnE shouldRebalance0) (\<lambda>shouldRebalance1.
     bindE (if outOfRangeCount positionInfo > 0
            then bindE (logger Info ''Rebalancing due to out-of-range positions'') (\<lambda>_. returnE True)
            else returnE shouldRebalance1) (\<lambda>shouldRebalance2.
     if positionsCount positionInfo = 0
     then bindE (logger Info ''Creating initial position'') (\<lambda>_. returnE True)
     else returnE shouldRebalance2)))"

definition runIteration :: "('w, 'n) env \<Rightarrow> (unit, ('w, 'n) sys) async" where
  "runIteration env =
     bindE (logger Info ''Running bot iteration'') (\<lambda>_.
     tryCatch
       (bindE (checkPrice env) (\<lambda>priceInfo.
        bindE (checkPositions env) (\<lambda>positionInfo.
        bindE (checkWalletBalances env) (\<lambda>balanceInfo.
        bindE (decide priceInfo positionInfo) (\<lambda>shouldRebalance.
        bindE (if shouldRebalance
               then bindE (rebalanceIfNeeded env) (\<lambda>rebalanced.
                    if rebalanced then logger Info ''Rebalancing completed successfully''
                    else logger Info ''No rebalancing performed'')
               else logger Info ''No rebalancing needed'') (\<lambda>_.
        logger Info ''Bot iteration completed successfully''))))))
       (\<lambda>error.
          bindE (logger Err ''Error in bot iteration'') (\<lambda>_.
          sendErrorNotification env error)))"

text \<open>The title \<^verbatim>\<open>'Bot Started'\<close> with the colour \<^verbatim>\<open>0x0099ff\<close>.\<close>

definition initialize :: "('w, 'n) env \<Rightarrow> (unit, ('w, 'n) sys) async" where
  "initialize env =
     tryCatch
       (bindE (logger Info ''Initializing bot...'') (\<lambda>_.
        bindE (raydiumService_initialize env) (\<lambda>_.
        bindE (sendNotification env \<lparr>title = ''Bot Started'', color = 39423\<rparr>) (\<lambda>_.
        logger Info ''Bot initialized successfully''))))
       (\<lambda>error.
          bindE (logger Err ''Failed to initialize bot'') (\<lambda>_.
          bindE (sendErrorNotification env error) (\<lambda>_.
          throwE error)))"

text \<open>
  The callback that \<^verbatim>\<open>start\<close> hands to \<^verbatim>\<open>cron.schedule\<close>: every tick runs an
  iteration, and an error that escapes it is logged. It reads no field of the bot.
\<close>

definition cronTick :: "('w, 'n) env \<Rightarrow> (unit, ('w, 'n) sys) async" where
  "cronTick env =
     tryCatch (runIteration env) (\<lambda>error. logger Err ''Error during bot iteration'')"

text \<open>\<^verbatim>\<open>cron.schedule\<close>: a task that is returned is scheduled.\<close>

definition schedule :: "('w, 'n) env \<Rightarrow> (nat, ('w, 'n) sys) async" where
  "schedule env s =
     (case cron_schedule (gw env) (world s) of
        (Inl e, w') \<Rightarrow> (Inl e, s\<lparr>world := w'\<rparr>)
      | (Inr task, w') \<Rightarrow> (Inr task, s\<lparr>world := w', cronTasks := cronTasks s + 1\<rparr>))"

definition start :: "('w, 'n) env \<Rightarrow> (unit, ('w, 'n) sys) async" where
  "start env =
     bindE (getE isRunning) (\<lambda>running.
     if running then logger Warn ''Bot is already running''
     else
       tryCatch
         (bindE (initialize env) (\<lambda>_.
          bindE (schedule env) (\<lambda>task.
          bindE (modifyE (\<lambda>s. s\<lparr>cronJob := Some task\<rparr>)) (\<lambda>_.
          bindE (modifyE (\<lambda>s. s\<lparr>isRunning := True\<rparr>)) (\<lambda>_.
          bindE (logger Info ''Bot started'') (\<lambda>_.
          runIteration env))))))
         (\<lambda>error.
            bindE (logger Err ''Failed to start bot'') (\<lambda>_.
            sendErrorNotification env error)))"

text \<open>
  \<^verbatim>\<open>stop\<close> returns at once when \<^verbatim>\<open>!this.isRunning || !this.cronJob\<close>. The notification
  has the title \<^verbatim>\<open>'Bot Stopped'\<close> and the colour \<^verbatim>\<open>0xff0000\<close>.
\<close>

definition stop :: "('w, 'n) env \<Rightarrow> (unit, ('w, 'n) sys) async" where
  "stop env =
     bindE (getE (\<lambda>s. (isRunning s, cronJob s))) (\<lambda>(running, job).
     case job of
       None \<Rightarrow> logger Warn ''Bot is not running''
     | Some task \<Rightarrow>
         if \<not> running then logger Warn ''Bot is not running''
         else
           bindE (modifyE (\<lambda>s. s\<lparr>world := cronJob_stop (gw env) task (world s),
                                  cronTasks := cronTasks s - 1\<rparr>)) (\<lambda>_.
           bindE (modifyE (\<lambda>s. s\<lparr>cronJob := None\<rparr>)) (\<lambda>_.
           bindE (modifyE (\<lambda>s. s\<lparr>isRunning := False\<rparr>)) (\<lambda>_.
           bindE (logger Info ''Bot stopped'') (\<lambda>_.
           sendNotification env \<lparr>title = ''Bot Stopped'', color = 16711680\<rparr>)))))"

definition isActive :: "('w, 'n) sys \<Rightarrow> bool" where
  "isActive s = isRunning s"

section \<open>Properties of a run\<close>

text \<open>
  \<open>keeps R m\<close>: every run of \<open>m\<close> relates the state before to the state after by \<open>R\<close>.
  \<open>nothrow m\<close>: no run of \<open>m\<close> ends in a thrown error. \<open>closed_rel R\<close>: \<open>R\<close> holds of a
  state and itself, and of the ends of two runs in a row.
\<close>

definition keeps :: "('s \<Rightarrow> 's \<Rightarrow> bool) \<Rightarrow> ('a, 's) async \<Rightarrow> bool" where
  "keeps R m \<longleftrightarrow> (\<forall>s r s'. m s = (r, s') \<longrightarrow> R s s')"

definition nothrow :: "('a, 's) async \<Rightarrow> bool" where
  "nothrow m \<longleftrightarrow> (\<forall>s e s'. m s \<noteq> (Inl e, s'))"

definition closed_rel :: "('s \<Rightarrow> 's \<Rightarrow> bool) \<Rightarrow> bool" where
  "closed_rel R \<longleftrightarrow> (\<forall>s. R s s) \<and> (\<forall>s t u. R s t \<longrightarrow> R t u \<longrightarrow> R s u)"

text \<open>A transaction that opens a position, and one that was confirmed.\<close>

fun is_open :: "'n transaction \<Rightarrow> bool" where
  "is_open [OpenPosition lower upper a b] = True"
| "is_open tx = False"

definition successful_open :: "'n transaction \<times> (error + string) \<Rightarrow> bool" where
  "successful_open entry \<longleftrightarrow> is_open (fst entry) \<and> \<not> isl (snd entry)"

text \<open>
  What a run leaves alone. \<open>quiet\<close>: the fields of the bot and the number of timers are
  unchanged, and no \<^verbatim>\<open>'Bot Started'\<close> notification is sent. \<open>closing\<close>: also, the last
  price is unchanged and no transaction that opens a position was confirmed. \<open>calm\<close>:
  also, no transaction was submitted at all.
\<close>

definition calm :: "('w, 'n) sys \<Rightarrow> ('w, 'n) sys \<Rightarrow> bool" where
  "calm s s' \<longleftrightarrow>
     isRunning s' = isRunning s \<and> cronJob s' = cronJob s \<and> cronTasks s' = cronTasks s \<and>
     lastCheckedPrice s' = lastCheckedPrice s \<and>
     (\<exists>ns. notified s' = notified s @ ns \<and> list_all (\<lambda>n. title n \<noteq> ''Bot Started'') ns) \<and>
     submitted s' = submitted s"

definition closing :: "('w, 'n) sys \<Rightarrow> ('w, 'n) sys \<Rightarrow> bool" where
  "closing s s' \<longleftrightarrow>
     isRunning s' = isRunning s \<and> cronJob s' = cronJob s \<and> cronTasks s' = cronTasks s \<and>
     lastCheckedPrice s' = lastCheckedPrice s \<and>
     (\<exists>ns. notified s' = notified s @ ns \<and> list_all (\<lambda>n. title n \<noteq> ''Bot Started'') ns) \<and>
     (\<exists>ts. submitted s' = submitted s @ ts \<and> list_all (\<lambda>entry. \<not> successful_open entry) ts)"

definition quiet :: "('w, 'n) sys \<Rightarrow> ('w, 'n) sys \<Rightarrow> bool" where
  "quiet s s' \<longleftrightarrow>
     isRunning s' = isRunning s \<and> cronJob s' = cronJob s \<and> cronTasks s' = cronTasks s \<and>
     (\<exists>ns. notified s' = notified s @ ns \<and> list_all (\<lambda>n. title n \<noteq> ''Bot Started'') ns)"

text \<open>Among the transactions submitted, a confirmed one that opens a position.\<close>

definition has_open :: "('n transaction \<times> (error + string)) list \<Rightarrow> bool" where
  "has_open ts \<longleftrightarrow> (\<exists>tx signature. (tx, Inr signature) \<in> set ts \<and> is_open tx)"

text \<open>The \<^verbatim>\<open>'Bot Started'\<close> notifications sent so far.\<close>

definition botStarted :: "('w, 'n) sys \<Rightarrow> notification list" where
  "botStarted s = filter (\<lambda>n. title n = ''Bot Started'') (notified s)"

text \<open>\<open>extends_log\<close>: the log lines written so far stay, and lines are added after them.\<close>

definition extends_log :: "('w, 'n) sys \<Rightarrow> ('w, 'n) sys \<Rightarrow> bool" where
  "extends_log s s' \<longleftrightarrow> (\<exists>ls. logs s' = logs s @ ls)"

section \<open>A simulated chain\<close>

text \<open>
  An environment to run the bot in: exact arithmetic on the reals for the numbers, and a
  chain that holds a pool, the positions and token accounts of the wallet, and the list
  of the transactions that fail (the NFT mint of a position to close, or \<open>''open''\<close>).
  The two methods that \<^verbatim>\<open>RaydiumService\<close> does not define throw a \<^verbatim>\<open>TypeError\<close>.
\<close>

definition exact :: "real js_number" where
  "exact =
     \<lparr>n_add = (\<lambda>a b. a + b), n_sub = (\<lambda>a b. a - b), n_mul = (\<lambda>a b. a * b),
      n_div = (\<lambda>a b. a / b), n_abs = (\<lambda>a. \<bar>a\<bar>), n_lessThan = (\<lambda>a b. Some (a < b)),
      n_lit = of_int, n_of_sqrtPriceX64 = (\<lambda>x. (of_int x) ^ 2 / 2 ^ 128),
      n_fromBN = (\<lambda>x d. of_int x / 10 ^ d)\<rparr>"

record chain =
  pool :: "pool_data option"
  rpc_down :: bool
  held :: "sdk_position list"
  accounts :: "real token_account list"
  failing :: "string list"

definition sim_send :: "real transaction \<Rightarrow> chain \<Rightarrow> (error + string) \<times> chain" where
  "sim_send tx w =
     (case tx of
        [ClosePosition p] \<Rightarrow>
          if p \<in> set (failing w) then (Inl (Error ''Transaction failed''), w)
          else (Inr (''sig-'' @ p), w\<lparr>held := filter (\<lambda>q. sp_nftMint q \<noteq> p) (held w)\<rparr>)
      | [OpenPosition lower upper a b] \<Rightarrow>
          if ''open'' \<in> set (failing w) then (Inl (Error ''Transaction failed''), w)
          else (Inr ''sig-open'', w)
      | _ \<Rightarrow> (Inl (Error ''Transaction rejected''), w))"

definition sim_gateway :: "(chain, real) gateway" where
  "sim_gateway =
     \<lparr>ClmmPoolUtils_fetchPoolInfo =
        (\<lambda>w. if rpc_down w then (Inl (Error ''fetch failed''), w) else (Inr (pool w), w)),
      Clmm_getPositionsByOwner = (\<lambda>w. (Inr (held w), w)),
      Clmm_makeOpenPositionInstructionV2 = (\<lambda>i w. (Inr (), w)),
      Clmm_makeClosePositionInstruction = (\<lambda>i w. (Inr (), w)),
      connection_getBalance = (\<lambda>w. (Inr 1000000000, w)),
      connection_getParsedTokenAccountsByOwner = (\<lambda>w. (Inr (accounts w), w)),
      connection_getLatestBlockhash = (\<lambda>w. (Inr ''blockhash'', w)),
      sendAndConfirmTransaction = sim_send,
      webhook_send = (\<lambda>n w. (Inr (), w)),
      cron_schedule = (\<lambda>w. (Inr 1, w)),
      cronJob_stop = (\<lambda>task w. w),
      setTimeout_5000 = (\<lambda>w. w),
      raydiumService_getTokenAMint =
        (\<lambda>w. (Inl (Error ''TypeError: raydiumService.getTokenAMint is not a function''), w)),
      raydiumService_getTokenBMint =
        (\<lambda>w. (Inl (Error ''TypeError: raydiumService.getTokenBMint is not a function''), w))\<rparr>"

definition sim_env :: "(chain, real) env" where
  "sim_env =
     \<lparr>num = exact, gw = sim_gateway,
      Config = \<lparr>minSolBalance = 5 / 100, poolId = ''pool'', priceRangePercent = 5,
                rebalanceThresholdPercent = 1\<rparr>,
      webhook = True\<rparr>"

text \<open>A pool at price 100: the square root of the price is 10, scaled by \<open>2 ^ 64\<close>.\<close>

definition sol_usdc :: pool_data where
  "sol_usdc =
     \<lparr>mintA = ''SOL-mint'', mintB = ''USDC-mint'', mintADecimals = 9, mintBDecimals = 6,
      sqrtPriceX64 = 184467440737095516160\<rparr>"

text \<open>The state of a process that has just been loaded.\<close>

definition boot :: "chain \<Rightarrow> (chain, real) sys" where
  "boot w =
     \<lparr>world = w, poolInfo = None, tokenA = None, tokenB = None, lastCheckedPrice = None,
      isRunning = False, cronJob = None, notified = [], submitted = [], cronTasks = 0,
      logs = []\<rparr>"

definition quiet_chain :: chain where
  "quiet_chain = \<lparr>pool = Some sol_usdc, rpc_down = False, held = [], accounts = [], failing = []\<rparr>"

text \<open>Processes on this chain: the last price, the positions and the wallet vary.\<close>

definition watching :: "(chain, real) sys" where
  "watching = (boot quiet_chain)\<lparr>lastCheckedPrice := Some 80\<rparr>"

text \<open>A last price from which the pool's price of 100 is up by one percent exactly.\<close>

definition on_threshold :: "(chain, real) sys" where
  "on_threshold = (boot quiet_chain)\<lparr>lastCheckedPrice := Some (10000 / 101)\<rparr>"

definition down_chain :: chain where
  "down_chain = quiet_chain\<lparr>rpc_down := True\<rparr>"

definition cut_off :: "(chain, real) sys" where
  "cut_off = (boot down_chain)\<lparr>lastCheckedPrice := Some 80\<rparr>"

definition position_1 :: sdk_position where
  "position_1 =
     \<lparr>sp_poolId = ''pool'', sp_nftMint = ''nft-1'', sp_tickLowerPrice = 110000000,
      sp_tickUpperPrice = 120000000, sp_liquidity = 1, sp_mintA = ''SOL-mint'',
      sp_mintB = ''USDC-mint''\<rparr>"

definition wallet :: "int \<Rightarrow> int \<Rightarrow> real token_account list" where
  "wallet a b =
     [\<lparr>ta_mint = ''SOL-mint'', ta_amount = a, ta_decimals = 9, ta_uiAmount = of_int a / 10 ^ 9\<rparr>,
      \<lparr>ta_mint = ''USDC-mint'', ta_amount = b, ta_decimals = 6, ta_uiAmount = of_int b / 10 ^ 6\<rparr>]"

definition holding :: "(chain, real) sys" where
  "holding = boot (quiet_chain\<lparr>held := [position_1], accounts := wallet 2000000001 150000000\<rparr>)"

definition dust :: "(chain, real) sys" where
  "dust = boot (quiet_chain\<lparr>accounts := wallet 999 150000000\<rparr>)"

definition funded :: "(chain, real) sys" where
  "funded = boot (quiet_chain\<lparr>accounts := wallet 2000000001 150000000\<rparr>)"

definition balances_of :: "int \<Rightarrow> int \<Rightarrow> (string \<times> real TokenBalance) list" where
  "balances_of a b =
     [(''SOL-mint'', \<lparr>tb_mint = ''SOL-mint'', amount = a, tb_decimals = 9, uiAmount = of_int a / 10 ^ 9\<rparr>),
      (''USDC-mint'', \<lparr>tb_mint = ''USDC-mint'', amount = b, tb_decimals = 6, uiAmount = of_int b / 10 ^ 6\<rparr>)]"

definition position_info_1 :: "real PositionInfo" where
  "position_info_1 =
     \<lparr>positionId = ''nft-1'',
      pi_tokenA = \<lparr>mint = ''SOL-mint'', symbol = ''SOL'', decimals = 9\<rparr>,
      pi_tokenB = \<lparr>mint = ''USDC-mint'', symbol = ''USDC'', decimals = 6\<rparr>,
      liquidity = 1, lowerPrice = 110, upperPrice = 120, currentPrice = 100, inRange = False\<rparr>"

definition stranded :: "(chain, real) sys" where
  "stranded =
     boot (quiet_chain\<lparr>held := [position_1], accounts := wallet 2000000001 150000000,
                        failing := [''open'']\<rparr>)"

definition position_2 :: sdk_position where
  "position_2 =
     \<lparr>sp_poolId = ''pool'', sp_nftMint = ''nft-2'', sp_tickLowerPrice = 50000000,
      sp_tickUpperPrice = 60000000, sp_liquidity = 1, sp_mintA = ''SOL-mint'',
      sp_mintB = ''USDC-mint''\<rparr>"

definition position_info_2 :: "real PositionInfo" where
  "position_info_2 =
     \<lparr>positionId = ''nft-2'',
      pi_tokenA = \<lparr>mint = ''SOL-mint'', symbol = ''SOL'', decimals = 9\<rparr>,
      pi_tokenB = \<lparr>mint = ''USDC-mint'', symbol = ''USDC'', decimals = 6\<rparr>,
      liquidity = 1, lowerPrice = 50, upperPrice = 60, currentPrice = 100, inRange = False\<rparr>"

definition two_out :: "(chain, real) sys" where
  "two_out = boot (quiet_chain\<lparr>held := [position_1, position_2], failing := [''nft-2'']\<rparr>)"

text \<open>
  A bot that \<^verbatim>\<open>start\<close> has started on the quiet chain, its first iteration finished. And
  the same bot during its next iteration, which has logged that it runs and has checked
  the price, and waits at \<^verbatim>\<open>await poolMonitor.checkPositions()\<close> for the answer of the RPC
  node.
\<close>

definition started_bot :: "(chain, real) sys" where
  "started_bot = snd (start sim_env (boot quiet_chain))"

definition in_flight :: "(chain, real) sys" where
  "in_flight =
     snd (bindE (logger Info ''Running bot iteration'') (\<lambda>_. checkPrice sim_env) started_bot)"

section \<open>Reasoning about asynchronous functions\<close>

lemma keepsD: "keeps R m \<Longrightarrow> m s = (r, s') \<Longrightarrow> R s s'"
  by (simp add: keeps_def)

lemma nothrowD: "nothrow m \<Longrightarrow> m s = (Inl e, s') \<Longrightarrow> False"
  by (simp add: nothrow_def)

lemma bindE_cases:
  assumes "bindE m f s = (r, s')"
  obtains (throws) e where "m s = (Inl e, s')" "r = Inl e"
        | (returns) a t where "m s = (Inr a, t)" "f a t = (r, s')"
proof -
  obtain r1 t where run: "m s = (r1, t)" by (cases "m s")
  show thesis
  proof (cases r1)
    case (Inl e)
    with run assms throws show thesis by (auto simp: bindE_def)
  next
    case (Inr a)
    with run assms returns show thesis by (auto simp: bindE_def)
  qed
qed

lemma tryCatch_cases:
  assumes "tryCatch m h s = (r, s')"
  obtains (caught) e t where "m s = (Inl e, t)" "h e t = (r, s')"
        | (returns) a where "m s = (Inr a, s')" "r = Inr a"
proof -
  obtain r1 t where run: "m s = (r1, t)" by (cases "m s")
  show thesis
  proof (cases r1)
    case (Inl e)
    with run assms caught show thesis by (auto simp: tryCatch_def)
  next
    case (Inr a)
    with run assms returns show thesis by (auto simp: tryCatch_def)
  qed
qed

subsection \<open>Running a function step by step\<close>

lemma bindE_getE: "bindE (getE f) k s = k (f s) s"
  by (simp add: bindE_def getE_def)

lemma bindE_returnE: "bindE (returnE a) k s = k a s"
  by (simp add: bindE_def returnE_def)

lemma bindE_modifyE: "bindE (modifyE f) k s = k () (f s)"
  by (simp add: bindE_def modifyE_def)

lemma bindE_logger: "bindE (logger l msg) k s = k () (s\<lparr>logs := logs s @ [(l, msg)]\<rparr>)"
  by (simp add: bindE_def modifyE_def logger_def)

lemma bindE_liftE: "bindE (liftE f) k s = (case f s of Inl e \<Rightarrow> (Inl e, s) | Inr a \<Rightarrow> k a s)"
  by (simp add: bindE_def liftE_def split: sum.splits)

lemma bindE_run_Inr: "m s = (Inr a, t) \<Longrightarrow> bindE m k s = k a t"
  by (simp add: bindE_def)

lemma bindE_run_Inl: "m s = (Inl e, t) \<Longrightarrow> bindE m k s = (Inl e, t)"
  by (simp add: bindE_def)

lemma tryCatch_run_Inr: "m s = (Inr a, t) \<Longrightarrow> tryCatch m h s = (Inr a, t)"
  by (simp add: tryCatch_def)

lemma tryCatch_run_Inl: "m s = (Inl e, t) \<Longrightarrow> tryCatch m h s = h e t"
  by (simp add: tryCatch_def)

lemma tryCatch_cong_run: "m s = m' s \<Longrightarrow> tryCatch m h s = tryCatch m' h s"
  by (simp add: tryCatch_def)

lemmas step_simps = bindE_getE bindE_returnE bindE_modifyE bindE_logger bindE_liftE

lemma after_nothrow:
  assumes "nothrow m" "bindE m f s = (r, s')"
  obtains a t where "m s = (Inr a, t)" "f a t = (r, s')"
  using assms(2)
proof (cases rule: bindE_cases)
  case (throws e)
  with assms(1) show ?thesis by (simp add: nothrow_def)
next
  case (returns a t)
  with that show ?thesis by blast
qed

subsection \<open>What a function keeps\<close>

lemma keeps_returnE: "closed_rel R \<Longrightarrow> keeps R (returnE a)"
  by (simp add: keeps_def returnE_def closed_rel_def)

lemma keeps_throwE: "closed_rel R \<Longrightarrow> keeps R (throwE e)"
  by (simp add: keeps_def throwE_def closed_rel_def)

lemma keeps_getE: "closed_rel R \<Longrightarrow> keeps R (getE f)"
  by (simp add: keeps_def getE_def closed_rel_def)

lemma keeps_liftE: "closed_rel R \<Longrightarrow> keeps R (liftE f)"
  by (simp add: keeps_def liftE_def closed_rel_def)

lemma keeps_modifyE: "(\<And>s. R s (f s)) \<Longrightarrow> keeps R (modifyE f)"
  by (simp add: keeps_def modifyE_def)

lemma keeps_logger: "(\<And>s l. R s (s\<lparr>logs := l\<rparr>)) \<Longrightarrow> keeps R (logger l msg)"
  by (simp add: keeps_def modifyE_def logger_def)

lemma keeps_ext: "(\<And>s w. R s (s\<lparr>world := w\<rparr>)) \<Longrightarrow> keeps R (ext f)"
  by (auto simp: keeps_def ext_def split: prod.splits)

lemma keeps_bindE:
  assumes "closed_rel R" "keeps R m" "\<And>a. keeps R (f a)"
  shows "keeps R (bindE m f)"
  unfolding keeps_def
proof (intro allI impI)
  fix s r s' assume "bindE m f s = (r, s')"
  then show "R s s'"
  proof (cases rule: bindE_cases)
    case (throws e)
    with assms(2) show ?thesis by (simp add: keeps_def)
  next
    case (returns a t)
    from assms(2) returns(1) have "R s t" by (rule keepsD)
    moreover from assms(3) returns(2) have "R t s'" by (rule keepsD)
    ultimately show ?thesis using assms(1) unfolding closed_rel_def by blast
  qed
qed

lemma keeps_tryCatch:
  assumes "closed_rel R" "keeps R m" "\<And>e. keeps R (h e)"
  shows "keeps R (tryCatch m h)"
  unfolding keeps_def
proof (intro allI impI)
  fix s r s' assume "tryCatch m h s = (r, s')"
  then show "R s s'"
  proof (cases rule: tryCatch_cases)
    case (caught e t)
    from assms(2) caught(1) have "R s t" by (rule keepsD)
    moreover from assms(3) caught(2) have "R t s'" by (rule keepsD)
    ultimately show ?thesis using assms(1) unfolding closed_rel_def by blast
  next
    case (returns a)
    with assms(2) show ?thesis by (simp add: keeps_def)
  qed
qed

lemma keeps_if: "keeps R a \<Longrightarrow> keeps R b \<Longrightarrow> keeps R (if c then a else b)"
  by simp

lemma keeps_case_option:
  "keeps R a \<Longrightarrow> (\<And>x. keeps R (f x)) \<Longrightarrow> keeps R (case v of None \<Rightarrow> a | Some x \<Rightarrow> f x)"
  by (cases v) simp_all

lemma keeps_case_prod: "(\<And>a b. keeps R (f a b)) \<Longrightarrow> keeps R (case p of (a, b) \<Rightarrow> f a b)"
  by (cases p) simp

lemma keeps_Let: "keeps R (f x) \<Longrightarrow> keeps R (Let x f)"
  by simp

lemmas keeps_intros = keeps_returnE keeps_throwE keeps_getE keeps_liftE keeps_modifyE
  keeps_logger keeps_ext keeps_bindE keeps_tryCatch keeps_if keeps_case_option keeps_case_prod
  keeps_Let

subsection \<open>What cannot throw\<close>

lemma nothrow_returnE: "nothrow (returnE a)"
  by (simp add: nothrow_def returnE_def)

lemma nothrow_getE: "nothrow (getE f)"
  by (simp add: nothrow_def getE_def)

lemma nothrow_modifyE: "nothrow (modifyE f)"
  by (simp add: nothrow_def modifyE_def)

lemma nothrow_logger: "nothrow (logger l msg)"
  by (simp add: nothrow_def modifyE_def logger_def)

lemma nothrow_bindE:
  assumes "nothrow m" "\<And>a. nothrow (f a)"
  shows "nothrow (bindE m f)"
  unfolding nothrow_def
proof (intro allI notI)
  fix s e s' assume "bindE m f s = (Inl e, s')"
  then show False
  proof (cases rule: bindE_cases)
    case (throws e')
    with assms(1) show ?thesis by (simp add: nothrow_def)
  next
    case (returns a t)
    with assms(2) show ?thesis by (simp add: nothrow_def)
  qed
qed

lemma nothrow_tryCatch:
  assumes "\<And>e. nothrow (h e)"
  shows "nothrow (tryCatch m h)"
  unfolding nothrow_def
proof (intro allI notI)
  fix s e s' assume "tryCatch m h s = (Inl e, s')"
  then show False
  proof (cases rule: tryCatch_cases)
    case (caught e' t)
    with assms show ?thesis by (simp add: nothrow_def)
  next
    case (returns a)
    then show ?thesis by simp
  qed
qed

lemma nothrow_if: "nothrow a \<Longrightarrow> nothrow b \<Longrightarrow> nothrow (if c then a else b)"
  by simp

lemma nothrow_case_option:
  "nothrow a \<Longrightarrow> (\<And>x. nothrow (f x)) \<Longrightarrow> nothrow (case v of None \<Rightarrow> a | Some x \<Rightarrow> f x)"
  by (cases v) simp_all

lemma nothrow_case_prod: "(\<And>a b. nothrow (f a b)) \<Longrightarrow> nothrow (case p of (a, b) \<Rightarrow> f a b)"
  by (cases p) simp

lemmas nothrow_intros = nothrow_returnE nothrow_getE nothrow_modifyE nothrow_logger
  nothrow_bindE nothrow_tryCatch nothrow_if nothrow_case_option nothrow_case_prod

lemma nothrow_sendNotification: "nothrow (sendNotification env n)"
  unfolding sendNotification_def by (intro nothrow_intros)

lemma nothrow_sendErrorNotification: "nothrow (sendErrorNotification env e)"
  unfolding sendErrorNotification_def by (rule nothrow_sendNotification)

lemma nothrow_createOptimalPosition: "nothrow (createOptimalPosition env)"
  unfolding createOptimalPosition_def by (intro nothrow_intros nothrow_sendErrorNotification)

lemma nothrow_withdrawOutOfRangePositions: "nothrow (withdrawOutOfRangePositions env)"
  unfolding withdrawOutOfRangePositions_def by (intro nothrow_intros nothrow_sendErrorNotification)

lemma nothrow_rebalanceIfNeeded: "nothrow (rebalanceIfNeeded env)"
  unfolding rebalanceIfNeeded_def by (intro nothrow_intros nothrow_sendErrorNotification)

lemma nothrow_runIteration: "nothrow (runIteration env)"
  unfolding runIteration_def by (intro nothrow_intros nothrow_sendErrorNotification)

lemma nothrow_start: "nothrow (start env)"
  unfolding start_def by (intro nothrow_intros nothrow_sendErrorNotification)

lemma nothrow_stop: "nothrow (stop env)"
  unfolding stop_def by (intro nothrow_intros nothrow_sendNotification)

section \<open>What the functions leave alone\<close>

lemma calm_refl: "calm s s"
  by (simp add: calm_def)

lemma calm_trans: "calm s t \<Longrightarrow> calm t u \<Longrightarrow> calm s u"
  unfolding calm_def by (elim conjE exE) simp

lemma closing_refl: "closing s s"
  by (simp add: closing_def)

lemma closing_trans: "closing s t \<Longrightarrow> closing t u \<Longrightarrow> closing s u"
  unfolding closing_def by (elim conjE exE) simp

lemma quiet_refl: "quiet s s"
  by (simp add: quiet_def)

lemma quiet_trans: "quiet s t \<Longrightarrow> quiet t u \<Longrightarrow> quiet s u"
  unfolding quiet_def by (elim conjE exE) simp

lemma closed_rel_calm: "closed_rel calm"
  unfolding closed_rel_def by (blast intro: calm_refl calm_trans)

lemma closed_rel_closing: "closed_rel closing"
  unfolding closed_rel_def by (blast intro: closing_refl closing_trans)

lemma closed_rel_quiet: "closed_rel quiet"
  unfolding closed_rel_def by (blast intro: quiet_refl quiet_trans)

lemma calm_quiet: "calm s s' \<Longrightarrow> quiet s s'"
  by (simp add: calm_def quiet_def)

lemma calm_closing: "calm s s' \<Longrightarrow> closing s s'"
  by (simp add: calm_def closing_def)

lemma closing_quiet: "closing s s' \<Longrightarrow> quiet s s'"
  by (simp add: closing_def quiet_def)

lemma keeps_calm_quiet: "keeps calm m \<Longrightarrow> keeps quiet m"
  unfolding keeps_def by (blast intro: calm_quiet)

lemma keeps_calm_closing: "keeps calm m \<Longrightarrow> keeps closing m"
  unfolding keeps_def by (blast intro: calm_closing)

lemma keeps_closing_quiet: "keeps closing m \<Longrightarrow> keeps quiet m"
  unfolding keeps_def by (blast intro: closing_quiet)

lemma closing_logs [simp]: "closing s (s\<lparr>logs := l\<rparr>)"
  by (simp add: closing_def)

lemma closing_world [simp]: "closing s (s\<lparr>world := w\<rparr>)"
  by (simp add: closing_def)

lemma calm_logs [simp]: "calm s (s\<lparr>logs := l\<rparr>)"
  by (simp add: calm_def)

lemma calm_world [simp]: "calm s (s\<lparr>world := w\<rparr>)"
  by (simp add: calm_def)

lemma quiet_logs [simp]: "quiet s (s\<lparr>logs := l\<rparr>)"
  by (simp add: quiet_def)

lemma quiet_world [simp]: "quiet s (s\<lparr>world := w\<rparr>)"
  by (simp add: quiet_def)

lemmas calm_intros = keeps_intros closed_rel_calm calm_logs calm_world

lemmas closing_intros = keeps_intros closed_rel_closing closing_logs closing_world

lemma calm_sendNotification:
  "title n \<noteq> ''Bot Started'' \<Longrightarrow> keeps calm (sendNotification env n)"
  unfolding sendNotification_def by (intro calm_intros; simp add: calm_def)

lemma calm_sendPositionUpdate: "keeps calm (sendPositionUpdate env a)"
  unfolding sendPositionUpdate_def by (rule calm_sendNotification) simp

lemma calm_sendErrorNotification: "keeps calm (sendErrorNotification env e)"
  unfolding sendErrorNotification_def by (rule calm_sendNotification) simp

lemma calm_getSolBalance: "keeps calm (getSolBalance env)"
  unfolding getSolBalance_def by (intro calm_intros)

lemma calm_getTokenBalances: "keeps calm (getTokenBalances env)"
  unfolding getTokenBalances_def by (intro calm_intros)

lemma closing_submit: "\<not> is_open tx \<Longrightarrow> keeps closing (submit env tx)"
  by (auto simp: keeps_def submit_def closing_def successful_open_def split: prod.splits)

lemma closing_signAndSendTransaction:
  "\<not> is_open tx \<Longrightarrow> keeps closing (signAndSendTransaction env tx)"
  unfolding signAndSendTransaction_def by (intro closing_intros closing_submit)

lemma calm_fetchPoolInfo: "keeps calm (fetchPoolInfo env)"
  unfolding fetchPoolInfo_def by (intro calm_intros; simp add: calm_def)

lemma calm_raydiumService_initialize: "keeps calm (raydiumService_initialize env)"
  unfolding raydiumService_initialize_def by (intro calm_intros calm_fetchPoolInfo)

lemma calm_ensurePoolInitialized: "keeps calm (ensurePoolInitialized env)"
  unfolding ensurePoolInitialized_def isPoolInitialized_def
  by (intro calm_intros calm_raydiumService_initialize)

lemma closing_withdrawPosition: "keeps closing (withdrawPosition env p)"
  unfolding withdrawPosition_def
  by (intro closing_intros closing_signAndSendTransaction
      keeps_calm_closing [OF calm_fetchPoolInfo] keeps_calm_closing [OF calm_sendPositionUpdate]
      keeps_calm_closing [OF calm_sendErrorNotification]) simp

lemma calm_getPositions: "keeps calm (getPositions env)"
  unfolding getPositions_def by (intro calm_intros calm_fetchPoolInfo)

lemma calm_checkPositions: "keeps calm (checkPositions env)"
  unfolding checkPositions_def by (intro calm_intros calm_getPositions)

lemma calm_formatBalances: "keeps calm (formatBalances env balances formatted)"
  unfolding keeps_def
proof (intro allI impI)
  fix s r s'
  assume "formatBalances env balances formatted s = (r, s')"
  then show "calm s s'"
  proof (induction env balances formatted s rule: formatBalances.induct)
    case (1 env formattedBalances s)
    then show ?case by (auto simp: calm_refl)
  next
    case (2 env m balance rest formattedBalances s)
    obtain ra s1 where a: "ext (raydiumService_getTokenAMint (gw env)) s = (ra, s1)"
      by (cases "ext (raydiumService_getTokenAMint (gw env)) s")
    have c1: "calm s s1"
      using a by (rule keepsD [OF keeps_ext [of calm, OF calm_world]])
    obtain rb s2 where b: "ext (raydiumService_getTokenBMint (gw env)) s1 = (rb, s2)"
      by (cases "ext (raydiumService_getTokenBMint (gw env)) s1")
    have c2: "calm s1 s2"
      using b by (rule keepsD [OF keeps_ext [of calm, OF calm_world]])
    show ?case
    proof (cases ra)
      case (Inl e)
      with a "2.prems" c1 show ?thesis by simp
    next
      case ra: (Inr mintA')
      show ?thesis
      proof (cases "m = mintA'")
        case True
        with a ra "2.prems" have "calm s1 s'" by (simp add: "2.IH"(1))
        with c1 show ?thesis by (rule calm_trans)
      next
        case False
        show ?thesis
        proof (cases rb)
          case (Inl e)
          with a ra False b "2.prems" c1 c2 show ?thesis by (auto intro: calm_trans)
        next
          case rb: (Inr mintB')
          have "calm s2 s'"
            using a ra False b rb "2.prems" "2.IH"(2,3) by (cases "m = mintB'") simp_all
          with c1 c2 show ?thesis by (blast intro: calm_trans)
        qed
      qed
    qed
  qed
qed

lemma calm_checkWalletBalances: "keeps calm (checkWalletBalances env)"
  unfolding checkWalletBalances_def
  by (intro calm_intros calm_getSolBalance calm_getTokenBalances calm_formatBalances
      calm_sendNotification) simp

lemma closing_withdrawEach: "keeps closing (withdrawEach env positions signatures)"
  unfolding keeps_def
proof (intro allI impI)
  fix s r s'
  assume "withdrawEach env positions signatures s = (r, s')"
  then show "closing s s'"
  proof (induction positions arbitrary: signatures s)
    case Nil
    then show ?case by (auto simp: closing_refl)
  next
    case (Cons position rest)
    let ?step = "bindE (logger Info ''Withdrawing out-of-range position'')
                   (\<lambda>_. withdrawPosition env (positionId position))"
    obtain r1 s1 where step: "?step s = (r1, s1)" by (cases "?step s")
    have "keeps closing ?step" by (intro closing_intros closing_withdrawPosition)
    then have c1: "closing s s1" using step by (rule keepsD)
    show ?case
    proof (cases r1)
      case (Inl e)
      with step Cons.prems c1 show ?thesis by simp
    next
      case (Inr signature)
      with step Cons.prems have "withdrawEach env rest (signatures @ [signature]) s1 = (r, s')"
        by simp
      then have "closing s1 s'" by (rule Cons.IH)
      with c1 show ?thesis by (rule closing_trans)
    qed
  qed
qed

lemma closing_withdrawOutOfRangePositions: "keeps closing (withdrawOutOfRangePositions env)"
  unfolding withdrawOutOfRangePositions_def
  by (intro closing_intros closing_withdrawEach keeps_calm_closing [OF calm_getPositions]
      keeps_calm_closing [OF calm_sendErrorNotification])

lemmas quiet_intros = keeps_intros closed_rel_quiet quiet_logs quiet_world

lemma quiet_submit: "keeps quiet (submit env tx)"
  by (auto simp: keeps_def submit_def quiet_def split: prod.splits)

lemma quiet_signAndSendTransaction: "keeps quiet (signAndSendTransaction env tx)"
  unfolding signAndSendTransaction_def by (intro quiet_intros quiet_submit)

lemma quiet_createPosition: "keeps quiet (createPosition env a b)"
  unfolding createPosition_def
  by (intro quiet_intros quiet_signAndSendTransaction
      keeps_calm_quiet [OF calm_fetchPoolInfo] keeps_calm_quiet [OF calm_sendPositionUpdate]
      keeps_calm_quiet [OF calm_sendErrorNotification])

lemma quiet_createOptimalPosition: "keeps quiet (createOptimalPosition env)"
  unfolding createOptimalPosition_def createOptimalPosition_try_def
  by (intro quiet_intros quiet_createPosition
      keeps_calm_quiet [OF calm_fetchPoolInfo] keeps_calm_quiet [OF calm_ensurePoolInitialized]
      keeps_calm_quiet [OF calm_getTokenBalances] keeps_calm_quiet [OF calm_getPositions]
      keeps_calm_quiet [OF calm_sendErrorNotification])

lemma quiet_rebalanceIfNeeded: "keeps quiet (rebalanceIfNeeded env)"
  unfolding rebalanceIfNeeded_def
  by (intro quiet_intros quiet_createOptimalPosition
      keeps_calm_quiet [OF calm_getPositions] keeps_closing_quiet [OF closing_withdrawOutOfRangePositions]
      keeps_calm_quiet [OF calm_sendErrorNotification]; simp add: quiet_def)

lemma quiet_checkPrice: "keeps quiet (checkPrice env)"
  unfolding checkPrice_def
  by (intro quiet_intros keeps_calm_quiet [OF calm_ensurePoolInitialized]; simp add: quiet_def)

lemma quiet_decide: "keeps quiet (decide priceInfo positionInfo)"
  unfolding decide_def by (intro quiet_intros)

lemma quiet_runIteration: "keeps quiet (runIteration env)"
  unfolding runIteration_def
  by (intro quiet_intros quiet_checkPrice quiet_decide quiet_rebalanceIfNeeded
      keeps_calm_quiet [OF calm_checkPositions] keeps_calm_quiet [OF calm_checkWalletBalances]
      keeps_calm_quiet [OF calm_sendErrorNotification])

lemma quiet_botStarted: "quiet s s' \<Longrightarrow> botStarted s' = botStarted s"
  unfolding quiet_def botStarted_def
  by (elim conjE exE) (simp add: list_all_iff filter_empty_conv)

subsection \<open>The catch blocks\<close>

lemma sendNotification_effect:
  assumes "sendNotification env n s = (r, s')"
  shows "r = Inr () \<and> notified s' = notified s @ [n] \<and> isRunning s' = isRunning s \<and>
     cronJob s' = cronJob s \<and> cronTasks s' = cronTasks s"
proof (cases "webhook env")
  case False
  with assms show ?thesis
    by (auto simp: sendNotification_def bindE_modifyE logger_def modifyE_def)
next
  case True
  let ?s0 = "s\<lparr>notified := notified s @ [n]\<rparr>"
  obtain rw w' where send: "webhook_send (gw env) n (world ?s0) = (rw, w')"
    by (cases "webhook_send (gw env) n (world ?s0)")
  then have e: "ext (webhook_send (gw env) n) ?s0 = (rw, ?s0\<lparr>world := w'\<rparr>)"
    by (simp add: ext_def)
  show ?thesis
  proof (cases rw)
    case (Inl x)
    note f = e [unfolded Inl]
    from assms True show ?thesis
      by (auto simp: sendNotification_def bindE_modifyE tryCatch_def
          bindE_run_Inl [of "ext (webhook_send (gw env) n)", OF f] logger_def modifyE_def)
  next
    case (Inr x)
    note f = e [unfolded Inr]
    from assms True show ?thesis
      by (auto simp: sendNotification_def bindE_modifyE tryCatch_def
          bindE_run_Inr [of "ext (webhook_send (gw env) n)", OF f] logger_def modifyE_def)
  qed
qed

text \<open>The \<^verbatim>\<open>catch\<close> blocks that log, notify and throw the error again.\<close>

lemma rethrow_handler:
  assumes "bindE (logger l msg) (\<lambda>_. bindE (sendErrorNotification env e) (\<lambda>_. throwE e)) t = (r, s')"
  shows "r = Inl e \<and> calm t s'"
proof -
  let ?t = "t\<lparr>logs := logs t @ [(l, msg)]\<rparr>"
  from assms have run: "bindE (sendErrorNotification env e) (\<lambda>_. throwE e) ?t = (r, s')"
    by (simp add: bindE_logger)
  from nothrow_sendErrorNotification run obtain a t1
    where n: "sendErrorNotification env e ?t = (Inr a, t1)" and th: "throwE e t1 = (r, s')"
    by (rule after_nothrow)
  from calm_sendErrorNotification n have "calm ?t t1" by (rule keepsD)
  with calm_logs have "calm t t1" by (rule calm_trans)
  with th show ?thesis by (auto simp: throwE_def)
qed

text \<open>The \<^verbatim>\<open>catch\<close> blocks that log, notify and return a value.\<close>

lemma swallow_handler:
  assumes "bindE (logger l msg) (\<lambda>_. bindE (sendErrorNotification env e) (\<lambda>_. returnE v)) t = (r, s')"
  shows "r = Inr v \<and> calm t s'"
proof -
  let ?t = "t\<lparr>logs := logs t @ [(l, msg)]\<rparr>"
  from assms have run: "bindE (sendErrorNotification env e) (\<lambda>_. returnE v) ?t = (r, s')"
    by (simp add: bindE_logger)
  from nothrow_sendErrorNotification run obtain a t1
    where n: "sendErrorNotification env e ?t = (Inr a, t1)" and th: "returnE v t1 = (r, s')"
    by (rule after_nothrow)
  from calm_sendErrorNotification n have "calm ?t t1" by (rule keepsD)
  with calm_logs have "calm t t1" by (rule calm_trans)
  with th show ?thesis by (auto simp: returnE_def)
qed

lemma update_tail:
  assumes "bindE (sendPositionUpdate env a) (\<lambda>_. bindE (logger l msg) (\<lambda>_. returnE v)) t = (r, s')"
  shows "r = Inr v \<and> calm t s'"
proof -
  have "nothrow (sendPositionUpdate env a)"
    unfolding sendPositionUpdate_def by (rule nothrow_sendNotification)
  from this assms obtain x t1
    where n: "sendPositionUpdate env a t = (Inr x, t1)"
      and th: "bindE (logger l msg) (\<lambda>_. returnE v) t1 = (r, s')"
    by (rule after_nothrow)
  from calm_sendPositionUpdate n have "calm t t1" by (rule keepsD)
  moreover from th have "r = Inr v" "s' = t1\<lparr>logs := logs t1 @ [(l, msg)]\<rparr>"
    by (auto simp: bindE_logger returnE_def)
  ultimately show ?thesis using calm_trans [OF _ calm_logs] by blast
qed

text \<open>The \<^verbatim>\<open>catch\<close> block of \<^verbatim>\<open>start\<close>, which logs and notifies and throws nothing.\<close>

lemma notify_handler:
  assumes "bindE (logger l msg) (\<lambda>_. sendErrorNotification env e) t = (r, s')"
  shows "r = Inr () \<and> calm t s'"
proof -
  let ?t = "t\<lparr>logs := logs t @ [(l, msg)]\<rparr>"
  from assms have run: "sendErrorNotification env e ?t = (r, s')"
    by (simp add: bindE_logger)
  from calm_sendErrorNotification run have "calm ?t s'" by (rule keepsD)
  with calm_logs have "calm t s'" by (rule calm_trans)
  moreover from run have "r = Inr ()"
    unfolding sendErrorNotification_def by (simp add: sendNotification_effect)
  ultimately show ?thesis by simp
qed

section \<open>Evaluating runs on the simulated chain\<close>

lemmas async_defs = returnE_def throwE_def bindE_def tryCatch_def liftE_def modifyE_def
  getE_def ext_def logger_def

lemmas sim_defs = sim_env_def sim_gateway_def sim_send_def exact_def sol_usdc_def boot_def
  quiet_chain_def

lemmas service_defs = checkPrice_def ensurePoolInitialized_def isPoolInitialized_def
  raydiumService_initialize_def fetchPoolInfo_def getCurrentPrice_def priceChangeThreshold_def
  js_gt_def js_lt_def js_le_def js_ge_def

lemmas bot_defs = service_defs createOptimalPosition_def createOptimalPosition_try_def
  getTokenBalances_def balances_set_def getPositions_def formatPosition_def createPosition_def
  calculatePriceRange_def signAndSendTransaction_def submit_def sendPositionUpdate_def
  sendErrorNotification_def sendNotification_def bigint_div_def minAmount_def withdrawPosition_def
  withdrawOutOfRangePositions_def rebalanceIfNeeded_def

lemmas loop_defs = start_def stop_def initialize_def schedule_def runIteration_def decide_def
  checkPositions_def checkWalletBalances_def getSolBalance_def

lemma run_fst: "fst (m s) = r \<Longrightarrow> m s = (r, snd (m s))"
  by (simp add: prod_eq_iff)

lemma sim_signatures:
  "\<forall>tx w signature w'.
     sendAndConfirmTransaction (gw sim_env) tx w = (Inr signature, w') \<longrightarrow> signature \<noteq> []"
  by (auto simp: sim_env_def sim_gateway_def sim_send_def
      split: list.splits instruction.splits if_splits)

section \<open>The price monitor\<close>

lemma checkPrice_body_cases:
  assumes "checkPrice env s = (r, s')"
  obtains
    (uninitialized) e t where "ensurePoolInitialized env s = (Inl e, t)" "r = Inl e"
      "s' = t\<lparr>logs := logs t @ [(Err, ''Failed to check price'')]\<rparr>"
  | (no_price) u t e where "ensurePoolInitialized env s = (Inr u, t)"
      "getCurrentPrice env t = Inl e" "r = Inl e"
      "s' = t\<lparr>logs := logs t @ [(Err, ''Failed to check price'')]\<rparr>"
  | (observed) u t price where "ensurePoolInitialized env s = (Inr u, t)"
      "getCurrentPrice env t = Inr price"
      "checkPrice env s = (r, s')"
proof -
  obtain r1 t where init: "ensurePoolInitialized env s = (r1, t)"
    by (cases "ensurePoolInitialized env s")
  show thesis
  proof (cases r1)
    case (Inl e)
    with init assms uninitialized show thesis
      by (auto simp: checkPrice_def async_defs)
  next
    case u: (Inr u)
    show thesis
    proof (cases "getCurrentPrice env t")
      case (Inl e)
      with init u assms no_price show thesis
        by (auto simp: checkPrice_def async_defs)
    next
      case (Inr price)
      with init u assms observed show thesis by blast
    qed
  qed
qed

text \<open>
  C6. A call of \<^verbatim>\<open>checkPrice\<close> that returns reports the price it read from the pool
  and stores it as the last price. With no last price stored before the call, the
  percent change is \<^verbatim>\<open>null\<close> and the change is not significant. With a last price
  \<open>prev\<close> stored, the percent change is \<open>|p - prev| / prev\<close> and the change is
  significant exactly when that is greater than \<open>rebalanceThresholdPercent / 100\<close>,
  strictly.
\<close>

theorem checkPrice_result:
  assumes "checkPrice env s = (Inr r, s')"
  shows "lastCheckedPrice s' = Some (pr_currentPrice r) \<and>
     getCurrentPrice env s' = Inr (pr_currentPrice r) \<and>
     (case lastCheckedPrice s of
        None \<Rightarrow> percentChange r = None \<and> \<not> significantChange r
      | Some prev \<Rightarrow>
          percentChange r =
            Some (n_div (num env) (n_abs (num env) (n_sub (num env) (pr_currentPrice r) prev)) prev) \<and>
          significantChange r =
            js_gt (num env)
              (n_div (num env) (n_abs (num env) (n_sub (num env) (pr_currentPrice r) prev)) prev)
              (n_div (num env) (rebalanceThresholdPercent (Config env)) (n_lit (num env) 100)))"
  using assms
proof (cases rule: checkPrice_body_cases)
  case (observed u t price)
  from calm_ensurePoolInitialized observed(1) have "calm s t" by (rule keepsD)
  then have last: "lastCheckedPrice t = lastCheckedPrice s" by (simp add: calm_def)
  have price: "getCurrentPrice env (x\<lparr>lastCheckedPrice := Some price\<rparr>) = Inr price"
    if "getCurrentPrice env x = Inr price" for x
    using that by (simp add: getCurrentPrice_def split: option.splits)
  have logged: "getCurrentPrice env (t\<lparr>logs := l\<rparr>) = Inr price" for l
    using observed(2) by (simp add: getCurrentPrice_def split: option.splits)
  from observed(3) show ?thesis
    unfolding checkPrice_def tryCatch_def
    by (cases "lastCheckedPrice s")
       (auto simp: bindE_run_Inr [of "ensurePoolInitialized env", OF observed(1)]
             bindE_liftE bindE_getE bindE_modifyE bindE_logger bindE_returnE returnE_def
             observed(2) last priceChangeThreshold_def price logged Let_def
           split: if_splits)
qed simp_all

theorem checkPrice_result_witness:
  "fst (checkPrice sim_env watching) =
     Inr \<lparr>pr_currentPrice = 100, significantChange = True, percentChange = Some (1 / 4)\<rparr> \<and>
   lastCheckedPrice (snd (checkPrice sim_env watching)) = Some 100 \<and>
   fst (checkPrice sim_env on_threshold) =
     Inr \<lparr>pr_currentPrice = 100, significantChange = False, percentChange = Some (1 / 100)\<rparr>"
proof -
  have edge: "fst (checkPrice sim_env on_threshold) =
      Inr \<lparr>pr_currentPrice = 100, significantChange = False, percentChange = Some (1 / 100)\<rparr>"
    by (simp add: on_threshold_def service_defs async_defs sim_defs)
  have result: "fst (checkPrice sim_env watching) =
      Inr \<lparr>pr_currentPrice = 100, significantChange = True, percentChange = Some (1 / 4)\<rparr>"
    by (simp add: watching_def service_defs async_defs sim_defs)
  then have run: "checkPrice sim_env watching =
      (Inr \<lparr>pr_currentPrice = 100, significantChange = True, percentChange = Some (1 / 4)\<rparr>,
       snd (checkPrice sim_env watching))"
    by (simp add: prod_eq_iff)
  from checkPrice_result [OF run] have "lastCheckedPrice (snd (checkPrice sim_env watching)) = Some 100"
    by simp
  with result edge show ?thesis by blast
qed

text \<open>
  C10. A call of \<^verbatim>\<open>checkPrice\<close> that throws leaves the stored last price as it was.
  The error is the one of the step that failed (the initialisation of the pool, or the
  reading of the price), thrown again after one line is logged.
\<close>

theorem checkPrice_failure:
  assumes "checkPrice env s = (Inl e, s')"
  shows "lastCheckedPrice s' = lastCheckedPrice s \<and>
     (\<exists>t. s' = t\<lparr>logs := logs t @ [(Err, ''Failed to check price'')]\<rparr> \<and>
        (ensurePoolInitialized env s = (Inl e, t) \<or>
         ensurePoolInitialized env s = (Inr (), t) \<and> getCurrentPrice env t = Inl e))"
  using assms
proof (cases rule: checkPrice_body_cases)
  case (uninitialized e' t)
  from calm_ensurePoolInitialized uninitialized(1) have "calm s t" by (rule keepsD)
  with uninitialized show ?thesis by (auto simp: calm_def)
next
  case (no_price u t e')
  from calm_ensurePoolInitialized no_price(1) have "calm s t" by (rule keepsD)
  with no_price show ?thesis by (auto simp: calm_def)
next
  case (observed u t price)
  then have False
    by (auto simp: checkPrice_def async_defs Let_def split: if_splits)
  then show ?thesis ..
qed

theorem checkPrice_failure_witness:
  "fst (checkPrice sim_env cut_off) = Inl (Error ''fetch failed'') \<and>
   lastCheckedPrice (snd (checkPrice sim_env cut_off)) = Some 80"
proof -
  have result: "fst (checkPrice sim_env cut_off) = Inl (Error ''fetch failed'')"
    by (simp add: cut_off_def down_chain_def service_defs async_defs sim_defs)
  then have run: "checkPrice sim_env cut_off =
      (Inl (Error ''fetch failed''), snd (checkPrice sim_env cut_off))"
    by (simp add: prod_eq_iff)
  from checkPrice_failure [OF run]
  have "lastCheckedPrice (snd (checkPrice sim_env cut_off)) = lastCheckedPrice cut_off"
    by blast
  moreover have "lastCheckedPrice cut_off = Some 80"
    by (simp add: cut_off_def boot_def)
  ultimately show ?thesis using result by simp
qed

section \<open>The decision\<close>

text \<open>
  C5. The decision is true exactly when the price change is significant, or some
  position is out of range, or there is no position. It reads nothing else, and it
  changes nothing of the state but the log.
\<close>

theorem decide_result:
  "fst (decide priceInfo positionInfo s) =
     Inr (significantChange priceInfo \<or> 0 < outOfRangeCount positionInfo \<or>
          positionsCount positionInfo = 0) \<and>
   (snd (decide priceInfo positionInfo s))\<lparr>logs := logs s\<rparr> = s"
  by (simp add: decide_def async_defs)

section \<open>Submitting a transaction\<close>

lemma signAndSendTransaction_cases:
  assumes "signAndSendTransaction env tx s = (r, s')"
  obtains
    (not_sent) e where "r = Inl e" "calm s s'"
  | (sent) w w' where "sendAndConfirmTransaction (gw env) tx w = (r, w')"
      "submitted s' = submitted s @ [(tx, r)]" "quiet s s'"
      "lastCheckedPrice s' = lastCheckedPrice s"
proof -
  obtain rb t where hash: "ext (connection_getLatestBlockhash (gw env)) s = (rb, t)"
    by (cases "ext (connection_getLatestBlockhash (gw env)) s")
  have ct: "calm s t"
    using hash by (rule keepsD [OF keeps_ext [of calm, OF calm_world]])
  show thesis
  proof (cases rb)
    case (Inl e)
    with hash assms have "r = Inl e" "s' = t\<lparr>logs := logs t @ [(Err, ''Failed to send transaction'')]\<rparr>"
      by (auto simp: signAndSendTransaction_def tryCatch_def bindE_run_Inl bindE_logger throwE_def)
    with ct not_sent calm_trans [OF ct calm_logs] show thesis by blast
  next
    case (Inr blockhash)
    obtain rs w' where send: "sendAndConfirmTransaction (gw env) tx (world t) = (rs, w')"
      by (cases "sendAndConfirmTransaction (gw env) tx (world t)")
    let ?u = "t\<lparr>world := w', submitted := submitted t @ [(tx, rs)]\<rparr>"
    have sub: "submit env tx t = (rs, ?u)"
      by (simp add: submit_def send)
    have "r = rs \<and> (\<exists>l. s' = ?u\<lparr>logs := l\<rparr>)"
    proof (cases rs)
      case (Inl e)
      with hash Inr sub assms show ?thesis
        by (auto simp: signAndSendTransaction_def tryCatch_def bindE_run_Inl bindE_run_Inr
            bindE_logger throwE_def)
    next
      case (Inr signature)
      with hash \<open>rb = Inr blockhash\<close> sub assms show ?thesis
        by (auto simp: signAndSendTransaction_def tryCatch_def bindE_run_Inr
            bindE_logger returnE_def)
    qed
    then obtain l where r: "r = rs" and s': "s' = ?u\<lparr>logs := l\<rparr>" by blast
    from ct have "submitted s' = submitted s @ [(tx, r)]" "quiet s s'"
        "lastCheckedPrice s' = lastCheckedPrice s"
      by (simp_all add: s' r calm_def quiet_def)
    with send r sent show thesis by blast
  qed
qed

lemma fetchPoolInfo_Inr:
  assumes "fetchPoolInfo env s = (Inr info, s')"
  shows "poolInfo s' = Some info \<and> tokenA s' \<noteq> None \<and> tokenB s' \<noteq> None \<and>
     getCurrentPrice env s' = Inr (n_of_sqrtPriceX64 (num env) (sqrtPriceX64 info))"
proof -
  obtain rf t where f: "ext (ClmmPoolUtils_fetchPoolInfo (gw env)) s = (rf, t)"
    by (cases "ext (ClmmPoolUtils_fetchPoolInfo (gw env)) s")
  show ?thesis
  proof (cases rf)
    case (Inl e)
    with f assms show ?thesis
      by (simp add: fetchPoolInfo_def tryCatch_def bindE_run_Inl bindE_logger throwE_def)
  next
    case (Inr poolData)
    show ?thesis
    proof (cases poolData)
      case None
      with f Inr assms show ?thesis
        by (simp add: fetchPoolInfo_def tryCatch_def bindE_run_Inr bindE_logger throwE_def)
    next
      case (Some pd)
      with f Inr assms show ?thesis
        by (auto simp: fetchPoolInfo_def tryCatch_def bindE_run_Inr step_simps returnE_def
            getCurrentPrice_def)
    qed
  qed
qed

lemma getCurrentPrice_logs: "getCurrentPrice env (s\<lparr>logs := l\<rparr>) = getCurrentPrice env s"
  by (simp add: getCurrentPrice_def split: option.split)

lemma bigint_div_nonneg: "0 \<le> a \<Longrightarrow> 0 < b \<Longrightarrow> bigint_div a b = a div b"
  by (cases "a = 0") (simp_all add: bigint_div_def)

section \<open>Creating a position\<close>

lemma createPosition_cases:
  assumes run: "createPosition env a b s = (r, s')"
    and pool: "poolInfo s \<noteq> None" "tokenA s \<noteq> None" "tokenB s \<noteq> None"
    and price: "getCurrentPrice env s = Inr price"
  obtains
    (not_sent) e where "r = Inl e" "calm s s'"
  | (sent) w w' where
      "sendAndConfirmTransaction (gw env)
         [OpenPosition (fst (calculatePriceRange env price)) (snd (calculatePriceRange env price)) a b] w
       = (r, w')"
      "submitted s' = submitted s @
         [([OpenPosition (fst (calculatePriceRange env price)) (snd (calculatePriceRange env price)) a b], r)]"
      "quiet s s'"
proof -
  let ?i = "OpenPosition (fst (calculatePriceRange env price)) (snd (calculatePriceRange env price)) a b"
  let ?h = "\<lambda>error. bindE (logger Err ''Failed to create position'')
              (\<lambda>_. bindE (sendErrorNotification env error) (\<lambda>_. throwE error))"
  let ?tail = "\<lambda>signature. bindE (sendPositionUpdate env Created)
              (\<lambda>_. bindE (logger Info ''Position created'') (\<lambda>_. returnE signature))"
  have form: "createPosition env a b s =
      tryCatch (bindE (ext (Clmm_makeOpenPositionInstructionV2 (gw env) ?i))
                  (\<lambda>_. bindE (signAndSendTransaction env [?i]) ?tail)) ?h s"
    unfolding createPosition_def
    by (rule tryCatch_cong_run) (simp add: step_simps split_beta Let_def pool price)
  obtain rm t where mk: "ext (Clmm_makeOpenPositionInstructionV2 (gw env) ?i) s = (rm, t)"
    by (cases "ext (Clmm_makeOpenPositionInstructionV2 (gw env) ?i) s")
  have ct: "calm s t"
    using mk by (rule keepsD [OF keeps_ext [of calm, OF calm_world]])
  show thesis
  proof (cases rm)
    case (Inl e)
    with mk run form have "?h e t = (r, s')"
      by (simp add: tryCatch_def bindE_run_Inl)
    then have "r = Inl e \<and> calm t s'" by (rule rethrow_handler)
    with ct not_sent show thesis by (blast intro: calm_trans)
  next
    case (Inr x)
    obtain rs u where ss: "signAndSendTransaction env [?i] t = (rs, u)"
      by (cases "signAndSendTransaction env [?i] t")
    from ss show thesis
    proof (cases rule: signAndSendTransaction_cases)
      case (not_sent e)
      with mk Inr ss run form have "?h e u = (r, s')"
        by (simp add: tryCatch_def bindE_run_Inl bindE_run_Inr)
      then have "r = Inl e \<and> calm u s'" by (rule rethrow_handler)
      with ct not_sent(2) show thesis
        using that(1) by (blast intro: calm_trans)
    next
      case snt: (sent w w')
      have sub_t: "submitted t = submitted s" and q_st: "quiet s t"
        using ct by (simp_all add: calm_def quiet_def)
      have "r = rs \<and> calm u s'"
      proof (cases rs)
        case (Inl e)
        with mk \<open>rm = Inr x\<close> ss run form have "?h e u = (r, s')"
          by (simp add: tryCatch_def bindE_run_Inl bindE_run_Inr)
        then have "r = Inl e \<and> calm u s'" by (rule rethrow_handler)
        with Inl show ?thesis by simp
      next
        case (Inr signature)
        obtain rt v where tl: "?tail signature u = (rt, v)"
          by (cases "?tail signature u")
        then have rt: "rt = Inr signature \<and> calm u v" by (rule update_tail)
        with mk \<open>rm = Inr x\<close> ss Inr tl run form have "r = Inr signature \<and> s' = v"
          by (simp add: tryCatch_def bindE_run_Inr)
        with rt Inr show ?thesis by simp
      qed
      then have r: "r = rs" and cu: "calm u s'" by blast+
      from cu snt(2) sub_t r
      have "submitted s' = submitted s @ [([?i], r)]" by (simp add: calm_def)
      moreover from q_st snt(3) calm_quiet [OF cu] have "quiet s s'"
        by (blast intro: quiet_trans)
      ultimately show thesis using snt(1) r that(2) by blast
    qed
  qed
qed

lemma createOptimalPosition_cases:
  assumes run: "createOptimalPosition env s = (r, s')"
  obtains
    (skipped) "r = Inr None" "calm s s'"
  | (attempted) u s1 balances s2 s3 info s4 tokenABalance tokenBBalance rc t where
      "ensurePoolInitialized env s = (Inr u, s1)"
      "getTokenBalances env s1 = (Inr balances, s2)"
      "getPositions env s2 = (Inr [], s3)"
      "fetchPoolInfo env s3 = (Inr info, s4)"
      "map_of balances (mintA info) = Some tokenABalance"
      "map_of balances (mintB info) = Some tokenBBalance"
      "\<not> amount tokenABalance < minAmount" "\<not> amount tokenBBalance < minAmount"
      "createPosition env (bigint_div (amount tokenABalance * 95) 100)
         (bigint_div (amount tokenBBalance * 95) 100)
         (s4\<lparr>logs := logs s4 @ [(Info, ''Creating position'')]\<rparr>) = (rc, t)"
      "calm s s4"
      "case rc of Inl e \<Rightarrow> r = Inr None \<and> calm t s' | Inr signature \<Rightarrow> r = Inr (Some signature) \<and> s' = t"
proof -
  have caught: "r = Inr None \<and> calm t s'" if "createOptimalPosition_try env s = (Inl e, t)" for e t
  proof -
    from that run have
      "bindE (logger Err ''Failed to create position'')
         (\<lambda>_. bindE (sendErrorNotification env e) (\<lambda>_. returnE None)) t = (r, s')"
      by (simp add: createOptimalPosition_def tryCatch_run_Inl)
    then show ?thesis by (rule swallow_handler)
  qed
  have fail: thesis if "createOptimalPosition_try env s = (Inl e, t)" "calm s t" for e t
    using caught [OF that(1)] that(2) skipped by (blast intro: calm_trans)
  have none: thesis if "createOptimalPosition_try env s = (Inr None, t)" "calm s t" for t
  proof -
    from that(1) run have "r = Inr None" "s' = t"
      by (simp_all add: createOptimalPosition_def tryCatch_run_Inr)
    with that(2) skipped show thesis by blast
  qed
  obtain r1 s1 where e1: "ensurePoolInitialized env s = (r1, s1)"
    by (cases "ensurePoolInitialized env s")
  from calm_ensurePoolInitialized e1 have c1: "calm s s1" by (rule keepsD)
  show thesis
  proof (cases r1)
    case (Inl e)
    note f = e1 [unfolded Inl]
    have "createOptimalPosition_try env s = (Inl e, s1)"
      by (simp add: createOptimalPosition_try_def bindE_run_Inl [of "ensurePoolInitialized env", OF f])
    then show thesis using c1 by (rule fail)
  next
    case r1: (Inr u)
    note e1 = e1 [unfolded r1]
    obtain r2 s2 where e2: "getTokenBalances env s1 = (r2, s2)"
      by (cases "getTokenBalances env s1")
    from calm_getTokenBalances e2 have "calm s1 s2" by (rule keepsD)
    with c1 have c2: "calm s s2" by (rule calm_trans)
    show thesis
    proof (cases r2)
      case (Inl e)
      note f = e2 [unfolded Inl]
      have "createOptimalPosition_try env s = (Inl e, s2)"
        by (simp add: createOptimalPosition_try_def
            bindE_run_Inr [of "ensurePoolInitialized env", OF e1]
            bindE_run_Inl [of "getTokenBalances env", OF f])
      then show thesis using c2 by (rule fail)
    next
      case r2: (Inr balances)
      note e2 = e2 [unfolded r2]
      obtain r3 s3 where e3: "getPositions env s2 = (r3, s3)"
        by (cases "getPositions env s2")
      from calm_getPositions e3 have "calm s2 s3" by (rule keepsD)
      with c2 have c3: "calm s s3" by (rule calm_trans)
      show thesis
      proof (cases r3)
        case (Inl e)
        note f = e3 [unfolded Inl]
        have "createOptimalPosition_try env s = (Inl e, s3)"
          by (simp add: createOptimalPosition_try_def
              bindE_run_Inr [of "ensurePoolInitialized env", OF e1]
              bindE_run_Inr [of "getTokenBalances env", OF e2]
              bindE_run_Inl [of "getPositions env", OF f])
        then show thesis using c3 by (rule fail)
      next
        case r3: (Inr positions)
        note e3 = e3 [unfolded r3]
        show thesis
        proof (cases "positions = []")
          case False
          then have "createOptimalPosition_try env s =
              (Inr None, s3\<lparr>logs := logs s3 @
                 [(Info, ''Active positions exist, skipping position creation'')]\<rparr>)"
            by (simp add: createOptimalPosition_try_def
                bindE_run_Inr [of "ensurePoolInitialized env", OF e1]
                bindE_run_Inr [of "getTokenBalances env", OF e2]
                bindE_run_Inr [of "getPositions env", OF e3] bindE_logger returnE_def)
          then show thesis using calm_trans [OF c3 calm_logs] by (rule none)
        next
          case True
          note e3 = e3 [unfolded True]
          obtain r4 s4 where e4: "fetchPoolInfo env s3 = (r4, s4)"
            by (cases "fetchPoolInfo env s3")
          from calm_fetchPoolInfo e4 have "calm s3 s4" by (rule keepsD)
          with c3 have c4: "calm s s4" by (rule calm_trans)
          show thesis
          proof (cases r4)
            case (Inl e)
            note f = e4 [unfolded Inl]
            have "createOptimalPosition_try env s = (Inl e, s4)"
              by (simp add: createOptimalPosition_try_def
                  bindE_run_Inr [of "ensurePoolInitialized env", OF e1]
                  bindE_run_Inr [of "getTokenBalances env", OF e2]
                  bindE_run_Inr [of "getPositions env", OF e3]
                  bindE_run_Inl [of "fetchPoolInfo env", OF f])
            then show thesis using c4 by (rule fail)
          next
            case r4: (Inr info)
            note e4 = e4 [unfolded r4]
            have form: "createOptimalPosition_try env s =
                (case (map_of balances (mintA info), map_of balances (mintB info)) of
                   (Some tokenABalance, Some tokenBBalance) \<Rightarrow>
                     if amount tokenABalance < minAmount \<or> amount tokenBBalance < minAmount
                     then (Inr None, s4\<lparr>logs := logs s4 @
                            [(Warn, ''Insufficient token balances for creating position'')]\<rparr>)
                     else bindE (createPosition env (bigint_div (amount tokenABalance * 95) 100)
                                   (bigint_div (amount tokenBBalance * 95) 100))
                            (\<lambda>signature. returnE (Some signature))
                            (s4\<lparr>logs := logs s4 @ [(Info, ''Creating position'')]\<rparr>)
                 | _ \<Rightarrow> (Inr None, s4\<lparr>logs := logs s4 @
                            [(Warn, ''Missing token balances needed for position'')]\<rparr>))"
              by (simp add: createOptimalPosition_try_def
                  bindE_run_Inr [of "ensurePoolInitialized env", OF e1]
                  bindE_run_Inr [of "getTokenBalances env", OF e2]
                  bindE_run_Inr [of "getPositions env", OF e3]
                  bindE_run_Inr [of "fetchPoolInfo env", OF e4]
                  bindE_logger returnE_def Let_def split: option.split)
            have missing: thesis
              if "map_of balances (mintA info) = None \<or> map_of balances (mintB info) = None"
            proof -
              from that have "createOptimalPosition_try env s =
                  (Inr None, s4\<lparr>logs := logs s4 @
                     [(Warn, ''Missing token balances needed for position'')]\<rparr>)"
                by (auto simp add: form split: option.split)
              then show thesis using calm_trans [OF c4 calm_logs] by (rule none)
            qed
            show thesis
            proof (cases "map_of balances (mintA info)")
              case None
              then show thesis by (intro missing disjI1)
            next
              case A: (Some a)
              show thesis
              proof (cases "map_of balances (mintB info)")
                case None
                then show thesis by (intro missing disjI2)
              next
                case B: (Some b)
                show thesis
                proof (cases "amount a < minAmount \<or> amount b < minAmount")
                  case True
                  then have "createOptimalPosition_try env s =
                      (Inr None, s4\<lparr>logs := logs s4 @
                         [(Warn, ''Insufficient token balances for creating position'')]\<rparr>)"
                    by (simp add: form A B)
                  then show thesis using calm_trans [OF c4 calm_logs] by (rule none)
                next
                  case False
                  then have ab: "\<not> amount a < minAmount" "\<not> amount b < minAmount"
                    by simp_all
                  let ?s5 = "s4\<lparr>logs := logs s4 @ [(Info, ''Creating position'')]\<rparr>"
                  obtain rc t where e5: "createPosition env (bigint_div (amount a * 95) 100)
                      (bigint_div (amount b * 95) 100) ?s5 = (rc, t)"
                    by (cases "createPosition env (bigint_div (amount a * 95) 100)
                      (bigint_div (amount b * 95) 100) ?s5")
                  have "case rc of Inl e \<Rightarrow> r = Inr None \<and> calm t s'
                        | Inr signature \<Rightarrow> r = Inr (Some signature) \<and> s' = t"
                  proof (cases rc)
                    case (Inl e)
                    note f = e5 [unfolded Inl]
                    from ab have "createOptimalPosition_try env s = (Inl e, t)"
                      by (simp add: form A B bindE_run_Inl [of "createPosition env _ _", OF f])
                    from caught [OF this] Inl show ?thesis by simp
                  next
                    case (Inr signature)
                    note f = e5 [unfolded Inr]
                    from ab have "createOptimalPosition_try env s = (Inr (Some signature), t)"
                      by (simp add: form A B bindE_run_Inr [of "createPosition env _ _", OF f]
                          returnE_def)
                    with run Inr show ?thesis
                      by (simp add: createOptimalPosition_def tryCatch_run_Inr)
                  qed
                  then show thesis by (rule attempted [OF e1 e2 e3 e4 A B ab e5 c4])
                qed
              qed
            qed
          qed
        qed
      qed
    qed
  qed
qed

text \<open>
  C7. When the bot already has a position in the pool, \<^verbatim>\<open>createOptimalPosition\<close>
  returns \<^verbatim>\<open>null\<close> and submits no transaction, whatever the balances are. When the
  wallet holds both pool tokens and the raw amount of either is below 1000, it returns
  \<^verbatim>\<open>null\<close> and submits no transaction, also with no position.
\<close>

theorem createOptimalPosition_no_action:
  assumes e1: "ensurePoolInitialized env s = (Inr u, s1)"
    and e2: "getTokenBalances env s1 = (Inr balances, s2)"
    and e3: "getPositions env s2 = (Inr positions, s3)"
  shows "(positions \<noteq> [] \<longrightarrow>
            fst (createOptimalPosition env s) = Inr None \<and>
            submitted (snd (createOptimalPosition env s)) = submitted s) \<and>
         (fetchPoolInfo env s3 = (Inr info, s4) \<and>
          map_of balances (mintA info) = Some tokenABalance \<and>
          map_of balances (mintB info) = Some tokenBBalance \<and>
          (amount tokenABalance < 1000 \<or> amount tokenBBalance < 1000) \<longrightarrow>
            fst (createOptimalPosition env s) = Inr None \<and>
            submitted (snd (createOptimalPosition env s)) = submitted s)"
proof -
  obtain r s' where run: "createOptimalPosition env s = (r, s')"
    by (cases "createOptimalPosition env s")
  from run show ?thesis
  proof (cases rule: createOptimalPosition_cases)
    case skipped
    with run show ?thesis by (simp add: calm_def)
  next
    case (attempted u' s1' balances' s2' s3' info' s4' a b rc t)
    from attempted(1) e1 have "s1' = s1" by simp
    with attempted(2) e2 have "balances' = balances" "s2' = s2" by simp_all
    with attempted(3) e3 have p: "positions = []" "s3' = s3" by simp_all
    have "\<not> (fetchPoolInfo env s3 = (Inr info, s4) \<and>
          map_of balances (mintA info) = Some tokenABalance \<and>
          map_of balances (mintB info) = Some tokenBBalance \<and>
          (amount tokenABalance < 1000 \<or> amount tokenBBalance < 1000))"
    proof
      assume h: "fetchPoolInfo env s3 = (Inr info, s4) \<and>
          map_of balances (mintA info) = Some tokenABalance \<and>
          map_of balances (mintB info) = Some tokenBBalance \<and>
          (amount tokenABalance < 1000 \<or> amount tokenBBalance < 1000)"
      with attempted(4) p have "info' = info" by simp
      with attempted(5,6) h \<open>balances' = balances\<close> have "a = tokenABalance" "b = tokenBBalance"
        by simp_all
      with attempted(7,8) h show False by (simp add: minAmount_def)
    qed
    with p show ?thesis by blast
  qed
qed

theorem createOptimalPosition_no_action_witness:
  "fst (createOptimalPosition sim_env holding) = Inr None \<and>
   submitted (snd (createOptimalPosition sim_env holding)) = [] \<and>
   fst (createOptimalPosition sim_env dust) = Inr None \<and>
   submitted (snd (createOptimalPosition sim_env dust)) = []"
proof -
  let ?h1 = "snd (ensurePoolInitialized sim_env holding)"
  let ?h2 = "snd (getTokenBalances sim_env ?h1)"
  have h1: "ensurePoolInitialized sim_env holding = (Inr (), ?h1)"
    by (rule run_fst) (simp add: bot_defs async_defs sim_defs
        holding_def dust_def position_1_def wallet_def)
  have h2: "getTokenBalances sim_env ?h1 = (Inr (balances_of 2000000001 150000000), ?h2)"
    by (rule run_fst) (simp add: bot_defs async_defs sim_defs
        holding_def dust_def position_1_def wallet_def balances_of_def)
  have h3: "getPositions sim_env ?h2 = (Inr [position_info_1], snd (getPositions sim_env ?h2))"
    by (rule run_fst) (simp add: bot_defs async_defs sim_defs
        holding_def dust_def position_1_def wallet_def position_info_1_def)
  have "fst (createOptimalPosition sim_env holding) = Inr None \<and>
      submitted (snd (createOptimalPosition sim_env holding)) = submitted holding"
    using createOptimalPosition_no_action [OF h1 h2 h3] by blast
  moreover have "submitted holding = []"
    by (simp add: holding_def boot_def)
  moreover
  let ?d1 = "snd (ensurePoolInitialized sim_env dust)"
  let ?d2 = "snd (getTokenBalances sim_env ?d1)"
  let ?d3 = "snd (getPositions sim_env ?d2)"
  have d1: "ensurePoolInitialized sim_env dust = (Inr (), ?d1)"
    by (rule run_fst) (simp add: bot_defs async_defs sim_defs
        holding_def dust_def position_1_def wallet_def)
  have d2: "getTokenBalances sim_env ?d1 = (Inr (balances_of 999 150000000), ?d2)"
    by (rule run_fst) (simp add: bot_defs async_defs sim_defs
        holding_def dust_def position_1_def wallet_def balances_of_def)
  have d3: "getPositions sim_env ?d2 = (Inr [], ?d3)"
    by (rule run_fst) (simp add: bot_defs async_defs sim_defs
        holding_def dust_def position_1_def wallet_def)
  have d4: "fetchPoolInfo sim_env ?d3 = (Inr sol_usdc, snd (fetchPoolInfo sim_env ?d3))"
    by (rule run_fst) (simp add: bot_defs async_defs sim_defs
        holding_def dust_def position_1_def wallet_def)
  have d5: "map_of (balances_of 999 150000000) (mintA sol_usdc) =
      Some \<lparr>tb_mint = ''SOL-mint'', amount = 999, tb_decimals = 9, uiAmount = 999 / 10 ^ 9\<rparr>"
    "map_of (balances_of 999 150000000) (mintB sol_usdc) =
      Some \<lparr>tb_mint = ''USDC-mint'', amount = 150000000, tb_decimals = 6,
            uiAmount = 150000000 / 10 ^ 6\<rparr>"
    by (simp_all add: balances_of_def sol_usdc_def)
  have "fst (createOptimalPosition sim_env dust) = Inr None \<and>
      submitted (snd (createOptimalPosition sim_env dust)) = submitted dust"
    using createOptimalPosition_no_action [OF d1 d2 d3, of sol_usdc _
        "\<lparr>tb_mint = ''SOL-mint'', amount = 999, tb_decimals = 9, uiAmount = 999 / 10 ^ 9\<rparr>"
        "\<lparr>tb_mint = ''USDC-mint'', amount = 150000000, tb_decimals = 6,
            uiAmount = 150000000 / 10 ^ 6\<rparr>"] d4 d5
    by simp
  moreover have "submitted dust = []"
    by (simp add: dust_def boot_def)
  ultimately show ?thesis by simp
qed

text \<open>
  C8. \<^verbatim>\<open>createOptimalPosition\<close> submits at most one transaction. When it submits
  one, there was no position, both balances were at least 1000, and the transaction
  opens a position between \<open>price * (1 - priceRangePercent / 100)\<close> and
  \<open>price * (1 + priceRangePercent / 100)\<close>, for the price of the pool just fetched, with
  at most \<open>amount * 95 / 100\<close> of each token, rounded toward zero. It returns the
  signature when the transaction is confirmed and \<^verbatim>\<open>null\<close> when it is not.
\<close>

theorem createOptimalPosition_submits:
  assumes run: "createOptimalPosition env s = (r, s')"
  shows "r = Inr None \<and> submitted s' = submitted s \<or>
     (\<exists>u s1 balances s2 s3 info s4 tokenABalance tokenBBalance price outcome.
        ensurePoolInitialized env s = (Inr u, s1) \<and>
        getTokenBalances env s1 = (Inr balances, s2) \<and>
        getPositions env s2 = (Inr [], s3) \<and>
        fetchPoolInfo env s3 = (Inr info, s4) \<and>
        map_of balances (mintA info) = Some tokenABalance \<and>
        map_of balances (mintB info) = Some tokenBBalance \<and>
        1000 \<le> amount tokenABalance \<and> 1000 \<le> amount tokenBBalance \<and>
        getCurrentPrice env s4 = Inr price \<and>
        submitted s' = submitted s @
          [([OpenPosition
               (n_mul (num env) price
                  (n_sub (num env) (n_lit (num env) 1)
                     (n_div (num env) (priceRangePercent (Config env)) (n_lit (num env) 100))))
               (n_mul (num env) price
                  (n_add (num env) (n_lit (num env) 1)
                     (n_div (num env) (priceRangePercent (Config env)) (n_lit (num env) 100))))
               (bigint_div (amount tokenABalance * 95) 100)
               (bigint_div (amount tokenBBalance * 95) 100)], outcome)] \<and>
        bigint_div (amount tokenABalance * 95) 100 = amount tokenABalance * 95 div 100 \<and>
        bigint_div (amount tokenBBalance * 95) 100 = amount tokenBBalance * 95 div 100 \<and>
        r = Inr (case outcome of Inl e \<Rightarrow> None | Inr signature \<Rightarrow> Some signature))"
  using run
proof (cases rule: createOptimalPosition_cases)
  case skipped
  then show ?thesis by (simp add: calm_def)
next
  case (attempted u s1 balances s2 s3 info s4 a b rc t)
  let ?s5 = "s4\<lparr>logs := logs s4 @ [(Info, ''Creating position'')]\<rparr>"
  let ?price = "n_of_sqrtPriceX64 (num env) (sqrtPriceX64 info)"
  let ?A = "bigint_div (amount a * 95) 100"
  let ?B = "bigint_div (amount b * 95) 100"
  from fetchPoolInfo_Inr [OF attempted(4)]
  have pool: "poolInfo ?s5 \<noteq> None" "tokenA ?s5 \<noteq> None" "tokenB ?s5 \<noteq> None"
    and price4: "getCurrentPrice env s4 = Inr ?price"
    by simp_all
  then have price: "getCurrentPrice env ?s5 = Inr ?price"
    by (simp only: getCurrentPrice_logs)
  from attempted(10) have sub4: "submitted ?s5 = submitted s"
    by (simp add: calm_def)
  have floor: "1000 \<le> amount a" "1000 \<le> amount b"
    using attempted(7,8) by (simp_all add: minAmount_def)
  then have trunc: "?A = amount a * 95 div 100" "?B = amount b * 95 div 100"
    by (simp_all add: bigint_div_nonneg)
  from attempted(9) pool price show ?thesis
  proof (cases rule: createPosition_cases)
    case (not_sent e)
    with attempted(11) have "r = Inr None" "calm t s'" by simp_all
    with not_sent(2) sub4 show ?thesis by (simp add: calm_def)
  next
    case (sent w w')
    have rs: "r = Inr (case rc of Inl e \<Rightarrow> None | Inr signature \<Rightarrow> Some signature) \<and>
        submitted s' = submitted t"
      using attempted(11) by (cases rc) (simp_all add: calm_def)
    with sent(2) sub4 have
      "submitted s' = submitted s @
         [([OpenPosition (fst (calculatePriceRange env ?price)) (snd (calculatePriceRange env ?price))
              ?A ?B], rc)]"
      by simp
    then have "submitted s' = submitted s @
          [([OpenPosition
               (n_mul (num env) ?price
                  (n_sub (num env) (n_lit (num env) 1)
                     (n_div (num env) (priceRangePercent (Config env)) (n_lit (num env) 100))))
               (n_mul (num env) ?price
                  (n_add (num env) (n_lit (num env) 1)
                     (n_div (num env) (priceRangePercent (Config env)) (n_lit (num env) 100))))
               ?A ?B], rc)]"
      by (simp add: calculatePriceRange_def Let_def)
    with attempted(1-6) floor price4 trunc rs show ?thesis by blast
  qed
qed

theorem createOptimalPosition_submits_witness:
  "fst (createOptimalPosition sim_env funded) = Inr (Some ''sig-open'') \<and>
   submitted (snd (createOptimalPosition sim_env funded)) =
     [([OpenPosition 95 105 1900000000 142500000], Inr ''sig-open'')]"
proof -
  have "createOptimalPosition sim_env funded =
      (fst (createOptimalPosition sim_env funded), snd (createOptimalPosition sim_env funded))"
    by simp
  from createOptimalPosition_submits [OF this]
  have "fst (createOptimalPosition sim_env funded) = Inr None \<or>
      (\<exists>entry. submitted (snd (createOptimalPosition sim_env funded)) = submitted funded @ [entry])"
    by blast
  moreover have "fst (createOptimalPosition sim_env funded) = Inr (Some ''sig-open'')"
    by (simp add: bot_defs async_defs sim_defs funded_def wallet_def)
  moreover have "submitted (snd (createOptimalPosition sim_env funded)) =
      [([OpenPosition 95 105 1900000000 142500000], Inr ''sig-open'')]"
    by (simp add: bot_defs async_defs sim_defs funded_def wallet_def)
  ultimately show ?thesis by simp
qed

section \<open>Rebalancing\<close>

lemma has_open_Nil: "\<not> has_open []"
  by (simp add: has_open_def)

lemma has_open_append: "has_open (ts @ us) \<longleftrightarrow> has_open ts \<or> has_open us"
  by (auto simp: has_open_def)

lemma no_successful_open: "list_all (\<lambda>entry. \<not> successful_open entry) ts \<Longrightarrow> \<not> has_open ts"
  by (auto simp: has_open_def list_all_iff successful_open_def)

lemma createOptimalPosition_outcome:
  assumes sigs: "\<forall>tx w signature w'.
      sendAndConfirmTransaction (gw env) tx w = (Inr signature, w') \<longrightarrow> signature \<noteq> []"
    and run: "createOptimalPosition env s = (r, s')"
  shows "\<exists>v ts. r = Inr v \<and> submitted s' = submitted s @ ts \<and> (truthy v \<longleftrightarrow> has_open ts)"
  using run
proof (cases rule: createOptimalPosition_cases)
  case skipped
  then have "r = Inr None \<and> submitted s' = submitted s @ [] \<and> (truthy None \<longleftrightarrow> has_open [])"
    by (simp add: calm_def has_open_Nil)
  then show ?thesis by blast
next
  case (attempted u s1 balances s2 s3 info s4 a b rc t)
  let ?s5 = "s4\<lparr>logs := logs s4 @ [(Info, ''Creating position'')]\<rparr>"
  let ?price = "n_of_sqrtPriceX64 (num env) (sqrtPriceX64 info)"
  from fetchPoolInfo_Inr [OF attempted(4)]
  have pool: "poolInfo ?s5 \<noteq> None" "tokenA ?s5 \<noteq> None" "tokenB ?s5 \<noteq> None"
    and price4: "getCurrentPrice env s4 = Inr ?price"
    by simp_all
  then have price: "getCurrentPrice env ?s5 = Inr ?price"
    by (simp only: getCurrentPrice_logs)
  from attempted(10) have sub4: "submitted ?s5 = submitted s"
    by (simp add: calm_def)
  from attempted(9) pool price show ?thesis
  proof (cases rule: createPosition_cases)
    case (not_sent e)
    with attempted(11) have "r = Inr None" "calm t s'" by simp_all
    with not_sent(2) sub4
    have "r = Inr None \<and> submitted s' = submitted s @ [] \<and> (truthy None \<longleftrightarrow> has_open [])"
      by (simp add: calm_def has_open_Nil)
    then show ?thesis by blast
  next
    case (sent w w')
    let ?tx = "[OpenPosition (fst (calculatePriceRange env ?price))
        (snd (calculatePriceRange env ?price)) (bigint_div (amount a * 95) 100)
        (bigint_div (amount b * 95) 100)]"
    show ?thesis
    proof (cases rc)
      case (Inl e)
      with attempted(11) have "r = Inr None" "calm t s'" by simp_all
      with sent(2) sub4 Inl
      have "r = Inr None \<and> submitted s' = submitted s @ [(?tx, Inl e)] \<and>
          (truthy None \<longleftrightarrow> has_open [(?tx, Inl e)])"
        by (simp add: calm_def has_open_def)
      then show ?thesis by blast
    next
      case (Inr signature)
      with sent(1) sigs have "signature \<noteq> []" by blast
      with attempted(11) sent(2) sub4 Inr
      have "r = Inr (Some signature) \<and> submitted s' = submitted s @ [(?tx, Inr signature)] \<and>
          (truthy (Some signature) \<longleftrightarrow> has_open [(?tx, Inr signature)])"
        by (simp add: has_open_def)
      then show ?thesis by blast
    qed
  qed
qed

text \<open>The \<^verbatim>\<open>try\<close> block of \<^verbatim>\<open>rebalanceIfNeeded\<close> after the positions are read.\<close>

lemma rebalance_after_positions:
  assumes sigs: "\<forall>tx w signature w'.
      sendAndConfirmTransaction (gw env) tx w = (Inr signature, w') \<longrightarrow> signature \<noteq> []"
    and run: "(if length positions = 0
        then bindE (createOptimalPosition env) (\<lambda>signature. returnE (truthy signature))
        else
          let outOfRangePositions = filter (\<lambda>position. \<not> inRange position) positions in
          if length outOfRangePositions > 0
          then bindE (withdrawOutOfRangePositions env) (\<lambda>withdrawSignatures.
               if length withdrawSignatures > 0
               then bindE (modifyE (\<lambda>s. s\<lparr>world := setTimeout_5000 (gw env) (world s)\<rparr>)) (\<lambda>_.
                    bindE (createOptimalPosition env) (\<lambda>createSignature.
                    returnE (truthy createSignature)))
               else returnE False)
          else returnE False) s = (r, s')"
  shows "\<exists>b ts. r = Inr b \<and> submitted s' = submitted s @ ts \<and> (b \<longleftrightarrow> has_open ts)"
proof -
  show ?thesis
  proof (cases "positions = []")
    case True
    obtain rc t where c: "createOptimalPosition env s = (rc, t)"
      by (cases "createOptimalPosition env s")
    from createOptimalPosition_outcome [OF sigs c] obtain v ts
      where v: "rc = Inr v" "submitted t = submitted s @ ts" "truthy v \<longleftrightarrow> has_open ts"
      by blast
    from run True have "r = Inr (truthy v)" "s' = t"
      by (simp_all add: bindE_run_Inr [of "createOptimalPosition env", OF c [unfolded v(1)]]
          returnE_def)
    with v show ?thesis by blast
  next
    case False
    show ?thesis
    proof (cases "filter (\<lambda>position. \<not> inRange position) positions = []")
      case True
      with False run have "r = Inr False" "s' = s" by (simp_all add: returnE_def)
      then have "r = Inr False \<and> submitted s' = submitted s @ [] \<and> (False \<longleftrightarrow> has_open [])"
        by (simp add: has_open_Nil)
      then show ?thesis by blast
    next
      case oor: False
      obtain rw t where w: "withdrawOutOfRangePositions env s = (rw, t)"
        by (cases "withdrawOutOfRangePositions env s")
      from closing_withdrawOutOfRangePositions w have "closing s t" by (rule keepsD)
      then obtain ts1 where ts1: "submitted t = submitted s @ ts1" "\<not> has_open ts1"
        unfolding closing_def by (blast dest: no_successful_open)
      from nothrow_withdrawOutOfRangePositions w obtain ws where rw: "rw = Inr ws"
        by (cases rw) (auto simp: nothrow_def)
      note w = w [unfolded rw]
      from run False oor have after:
        "(if length ws > 0
          then bindE (modifyE (\<lambda>s. s\<lparr>world := setTimeout_5000 (gw env) (world s)\<rparr>)) (\<lambda>_.
               bindE (createOptimalPosition env) (\<lambda>createSignature.
               returnE (truthy createSignature)))
          else returnE False) t = (r, s')"
        by (simp add: bindE_run_Inr [of "withdrawOutOfRangePositions env", OF w])
      show ?thesis
      proof (cases "ws = []")
        case True
        with after have "r = Inr False" "s' = t" by (simp_all add: returnE_def)
        with ts1 show ?thesis by blast
      next
        case False
        let ?t = "t\<lparr>world := setTimeout_5000 (gw env) (world t)\<rparr>"
        obtain rc u where c: "createOptimalPosition env ?t = (rc, u)"
          by (cases "createOptimalPosition env ?t")
        from createOptimalPosition_outcome [OF sigs c] obtain v ts2
          where v: "rc = Inr v" "submitted u = submitted ?t @ ts2" "truthy v \<longleftrightarrow> has_open ts2"
          by blast
        from after False have "r = Inr (truthy v)" "s' = u"
          by (simp_all add: bindE_modifyE
              bindE_run_Inr [of "createOptimalPosition env", OF c [unfolded v(1)]] returnE_def)
        moreover from v(2) ts1(1) have "submitted u = submitted s @ (ts1 @ ts2)" by simp
        moreover from v(3) ts1(2) have "truthy v \<longleftrightarrow> has_open (ts1 @ ts2)"
          by (simp add: has_open_append)
        ultimately show ?thesis by blast
      qed
    qed
  qed
qed

text \<open>
  C4. \<^verbatim>\<open>rebalanceIfNeeded\<close> never throws, whatever the external calls do, and it
  returns true exactly when one of the transactions it submitted opens a position and
  was confirmed. A confirmed transaction has a signature, which is not the empty string.
\<close>

theorem rebalanceIfNeeded_result:
  assumes sigs: "\<forall>tx w signature w'.
      sendAndConfirmTransaction (gw env) tx w = (Inr signature, w') \<longrightarrow> signature \<noteq> []"
  shows "\<exists>rebalanced s' ts.
     rebalanceIfNeeded env s = (Inr rebalanced, s') \<and>
     submitted s' = submitted s @ ts \<and>
     (rebalanced \<longleftrightarrow> (\<exists>tx signature. (tx, Inr signature) \<in> set ts \<and> is_open tx))"
proof -
  obtain r s' where run: "rebalanceIfNeeded env s = (r, s')"
    by (cases "rebalanceIfNeeded env s")
  obtain rp t where p: "getPositions env s = (rp, t)"
    by (cases "getPositions env s")
  from calm_getPositions p have ct: "calm s t" by (rule keepsD)
  have "\<exists>b ts. r = Inr b \<and> submitted s' = submitted s @ ts \<and> (b \<longleftrightarrow> has_open ts)"
  proof (cases rp)
    case (Inl e)
    note f = p [unfolded Inl]
    from run have
      "bindE (logger Err ''Failed to rebalance positions'')
         (\<lambda>_. bindE (sendErrorNotification env e) (\<lambda>_. returnE False)) t = (r, s')"
      by (simp add: rebalanceIfNeeded_def tryCatch_def bindE_run_Inl [of "getPositions env", OF f])
    then have "r = Inr False \<and> calm t s'" by (rule swallow_handler)
    with ct have "r = Inr False \<and> submitted s' = submitted s @ [] \<and> (False \<longleftrightarrow> has_open [])"
      by (simp add: calm_def has_open_Nil)
    then show ?thesis by blast
  next
    case (Inr positions)
    note f = p [unfolded Inr]
    let ?rest = "if length positions = 0
        then bindE (createOptimalPosition env) (\<lambda>signature. returnE (truthy signature))
        else
          let outOfRangePositions = filter (\<lambda>position. \<not> inRange position) positions in
          if length outOfRangePositions > 0
          then bindE (withdrawOutOfRangePositions env) (\<lambda>withdrawSignatures.
               if length withdrawSignatures > 0
               then bindE (modifyE (\<lambda>s. s\<lparr>world := setTimeout_5000 (gw env) (world s)\<rparr>)) (\<lambda>_.
                    bindE (createOptimalPosition env) (\<lambda>createSignature.
                    returnE (truthy createSignature)))
               else returnE False)
          else returnE False"
    obtain rr u where rest: "?rest t = (rr, u)" by (cases "?rest t")
    from rebalance_after_positions [OF sigs rest] obtain b ts
      where b: "rr = Inr b" "submitted u = submitted t @ ts" "b \<longleftrightarrow> has_open ts"
      by blast
    have "rebalanceIfNeeded env s = (Inr b, u)"
      unfolding rebalanceIfNeeded_def
      by (rule tryCatch_run_Inr)
         (simp only: bindE_run_Inr [of "getPositions env", OF f] rest [unfolded b(1)])
    with run have "r = Inr b \<and> s' = u" by simp
    moreover from ct have "submitted t = submitted s" by (simp add: calm_def)
    ultimately have "r = Inr b \<and> submitted s' = submitted s @ ts \<and> (b \<longleftrightarrow> has_open ts)"
      using b by simp
    then show ?thesis by blast
  qed
  with run show ?thesis unfolding has_open_def by blast
qed

theorem rebalanceIfNeeded_result_witness:
  "fst (rebalanceIfNeeded sim_env funded) = Inr True \<and>
   fst (rebalanceIfNeeded sim_env stranded) = Inr False \<and>
   submitted (snd (rebalanceIfNeeded sim_env stranded)) =
     [([ClosePosition ''nft-1''], Inr ''sig-nft-1''),
      ([OpenPosition 95 105 1900000000 142500000], Inl (Error ''Transaction failed''))]"
proof -
  from rebalanceIfNeeded_result [OF sim_signatures, of funded]
  have "\<exists>rebalanced. fst (rebalanceIfNeeded sim_env funded) = Inr rebalanced"
    by force
  moreover have "fst (rebalanceIfNeeded sim_env funded) = Inr True"
    by (simp add: bot_defs async_defs sim_defs funded_def wallet_def)
  moreover have "fst (rebalanceIfNeeded sim_env stranded) = Inr False"
    by (simp add: bot_defs async_defs sim_defs stranded_def position_1_def wallet_def)
  moreover have "submitted (snd (rebalanceIfNeeded sim_env stranded)) =
     [([ClosePosition ''nft-1''], Inr ''sig-nft-1''),
      ([OpenPosition 95 105 1900000000 142500000], Inl (Error ''Transaction failed''))]"
    by (simp add: bot_defs async_defs sim_defs stranded_def position_1_def wallet_def)
  ultimately show ?thesis by simp
qed

section \<open>Withdrawing the positions out of range\<close>

lemma withdrawEach_append:
  "withdrawEach env (xs @ ys) signatures s =
     (case withdrawEach env xs signatures s of
        (Inl e, t) \<Rightarrow> (Inl e, t)
      | (Inr signatures', t) \<Rightarrow> withdrawEach env ys signatures' t)"
proof (induction xs arbitrary: signatures s)
  case Nil
  show ?case by simp
next
  case (Cons x xs)
  let ?step = "bindE (logger Info ''Withdrawing out-of-range position'')
                 (\<lambda>_. withdrawPosition env (positionId x))"
  obtain r1 s1 where step: "?step s = (r1, s1)" by (cases "?step s")
  show ?case
  proof (cases r1)
    case (Inl e)
    with step show ?thesis by simp
  next
    case (Inr signature)
    with step Cons.IH [of "signatures @ [signature]" s1] show ?thesis by simp
  qed
qed

lemma withdrawEach_single_fails:
  assumes "withdrawEach env [position] signatures s = (Inl e, t)"
  shows "withdrawEach env (position # rest) signatures s = (Inl e, t)"
proof -
  let ?step = "bindE (logger Info ''Withdrawing out-of-range position'')
                 (\<lambda>_. withdrawPosition env (positionId position))"
  obtain r1 s1 where step: "?step s = (r1, s1)" by (cases "?step s")
  show ?thesis
  proof (cases r1)
    case (Inl e')
    with step assms show ?thesis by simp
  next
    case (Inr signature)
    with step assms show ?thesis by simp
  qed
qed

text \<open>
  C1, as the code has it. When the withdrawal of one of the positions out of range
  throws, after the ones before it returned their signatures, no other transaction is
  submitted and \<^verbatim>\<open>withdrawOutOfRangePositions\<close> returns the empty list: the
  \<^verbatim>\<open>catch\<close> block returns \<^verbatim>\<open>[]\<close>, and the signatures collected are dropped.
\<close>

theorem withdrawOutOfRangePositions_failure:
  assumes positions: "getPositions env s = (Inr positions, s1)"
    and split: "filter (\<lambda>position. \<not> inRange position) positions = completed @ position # rest"
    and before: "withdrawEach env completed [] s1 = (Inr signatures, s2)"
    and fails: "withdrawEach env [position] signatures s2 = (Inl e, s3)"
  shows "fst (withdrawOutOfRangePositions env s) = Inr [] \<and>
     submitted (snd (withdrawOutOfRangePositions env s)) = submitted s3"
proof -
  have loop: "withdrawEach env (completed @ position # rest) [] s1 = (Inl e, s3)"
    by (simp only: withdrawEach_append before prod.case sum.case
        withdrawEach_single_fails [OF fails])
  let ?body = "bindE (getPositions env) (\<lambda>positions.
        let outOfRangePositions = filter (\<lambda>position. \<not> inRange position) positions in
        if length outOfRangePositions = 0
        then bindE (logger Info ''No out-of-range positions to withdraw'') (\<lambda>_. returnE [])
        else withdrawEach env outOfRangePositions [])"
  from split loop have body: "?body s = (Inl e, s3)"
    by (simp add: bindE_run_Inr [of "getPositions env", OF positions])
  obtain r s' where run: "withdrawOutOfRangePositions env s = (r, s')"
    by (cases "withdrawOutOfRangePositions env s")
  then have
    "bindE (logger Err ''Failed to withdraw out-of-range positions'')
       (\<lambda>_. bindE (sendErrorNotification env e) (\<lambda>_. returnE [])) s3 = (r, s')"
    unfolding withdrawOutOfRangePositions_def by (simp only: tryCatch_run_Inl [of ?body, OF body])
  then have "r = Inr [] \<and> calm s3 s'" by (rule swallow_handler)
  with run show ?thesis by (simp add: calm_def)
qed

theorem withdraw_partial_counterexample:
  "submitted (snd (withdrawOutOfRangePositions sim_env two_out)) =
     [([ClosePosition ''nft-1''], Inr ''sig-nft-1''),
      ([ClosePosition ''nft-2''], Inl (Error ''Transaction failed''))] \<and>
   fst (withdrawOutOfRangePositions sim_env two_out) = Inr [] \<and>
   fst (withdrawOutOfRangePositions sim_env two_out) \<noteq> Inr [''sig-nft-1'']"
  by (simp add: bot_defs async_defs sim_defs
      two_out_def position_1_def position_2_def position_info_1_def position_info_2_def)

theorem withdrawOutOfRangePositions_failure_witness:
  "fst (withdrawOutOfRangePositions sim_env two_out) = Inr [] \<and>
   map fst (submitted (snd (withdrawOutOfRangePositions sim_env two_out))) =
     [[ClosePosition ''nft-1''], [ClosePosition ''nft-2'']]"
proof -
  let ?s1 = "snd (getPositions sim_env two_out)"
  let ?s2 = "snd (withdrawEach sim_env [position_info_1] [] ?s1)"
  let ?s3 = "snd (withdrawEach sim_env [position_info_2] [''sig-nft-1''] ?s2)"
  have p: "getPositions sim_env two_out = (Inr [position_info_1, position_info_2], ?s1)"
    by (rule run_fst) (simp add: bot_defs async_defs sim_defs
        two_out_def position_1_def position_2_def position_info_1_def position_info_2_def)
  have f: "filter (\<lambda>position. \<not> inRange position) [position_info_1, position_info_2] =
      [position_info_1] @ position_info_2 # []"
    by (simp add: position_info_1_def position_info_2_def)
  have b: "withdrawEach sim_env [position_info_1] [] ?s1 = (Inr [''sig-nft-1''], ?s2)"
    by (rule run_fst) (simp add: bot_defs async_defs sim_defs
        two_out_def position_1_def position_2_def position_info_1_def position_info_2_def)
  have x: "withdrawEach sim_env [position_info_2] [''sig-nft-1''] ?s2 =
      (Inl (Error ''Transaction failed''), ?s3)"
    by (rule run_fst) (simp add: bot_defs async_defs sim_defs
        two_out_def position_1_def position_2_def position_info_1_def position_info_2_def)
  have "map fst (submitted ?s3) = [[ClosePosition ''nft-1''], [ClosePosition ''nft-2'']]"
    by (simp add: bot_defs async_defs sim_defs
        two_out_def position_1_def position_2_def position_info_1_def position_info_2_def)
  with withdrawOutOfRangePositions_failure [OF p f b x] show ?thesis by simp
qed

section \<open>Starting and stopping\<close>

lemma initialize_cases:
  assumes run: "initialize env s = (r, s')"
  obtains
    (failed) e where "r = Inl e" "calm s s'"
  | (started) "r = Inr ()" "isRunning s' = isRunning s" "cronJob s' = cronJob s"
      "cronTasks s' = cronTasks s" "length (botStarted s') = length (botStarted s) + 1"
proof -
  let ?s0 = "s\<lparr>logs := logs s @ [(Info, ''Initializing bot...'')]\<rparr>"
  let ?note = "\<lparr>title = ''Bot Started'', color = 39423\<rparr>"
  let ?h = "\<lambda>error. bindE (logger Err ''Failed to initialize bot'')
              (\<lambda>_. bindE (sendErrorNotification env error) (\<lambda>_. throwE error))"
  obtain ri t where i: "raydiumService_initialize env ?s0 = (ri, t)"
    by (cases "raydiumService_initialize env ?s0")
  from calm_raydiumService_initialize i have "calm ?s0 t" by (rule keepsD)
  with calm_logs have ct: "calm s t" by (rule calm_trans)
  show thesis
  proof (cases ri)
    case (Inl e)
    note f = i [unfolded Inl]
    from run have "?h e t = (r, s')"
      by (simp add: initialize_def tryCatch_def bindE_logger
          bindE_run_Inl [of "raydiumService_initialize env", OF f])
    then have "r = Inl e \<and> calm t s'" by (rule rethrow_handler)
    with ct failed show thesis by (blast intro: calm_trans)
  next
    case (Inr x)
    note f = i [unfolded Inr]
    obtain rn u where n: "sendNotification env ?note t = (rn, u)"
      by (cases "sendNotification env ?note t")
    from sendNotification_effect [OF n]
    have rn: "rn = Inr ()" and u: "notified u = notified t @ [?note]" "isRunning u = isRunning t"
        "cronJob u = cronJob t" "cronTasks u = cronTasks t"
      by simp_all
    note n = n [unfolded rn]
    from run have "r = Inr () \<and> s' = u\<lparr>logs := logs u @ [(Info, ''Bot initialized successfully'')]\<rparr>"
      by (auto simp: initialize_def tryCatch_def bindE_logger bindE_modifyE
          bindE_run_Inr [of "raydiumService_initialize env", OF f]
          bindE_run_Inr [of "sendNotification env ?note", OF n] logger_def modifyE_def)
    moreover from ct have "isRunning t = isRunning s" "cronJob t = cronJob s"
        "cronTasks t = cronTasks s" "botStarted t = botStarted s"
      by (simp_all add: calm_def quiet_botStarted [OF calm_quiet [OF ct]])
    ultimately show thesis using u started by (simp add: botStarted_def)
  qed
qed

lemma start_from_stopped:
  assumes stopped: "\<not> isRunning s" and run: "start env s = (r, s')"
  shows "r = Inr () \<and>
     (isRunning s' \<longrightarrow>
        length (botStarted s') = length (botStarted s) + 1 \<and> cronTasks s' = cronTasks s + 1)"
proof -
  let ?h = "\<lambda>error. bindE (logger Err ''Failed to start bot'')
              (\<lambda>_. sendErrorNotification env error)"
  let ?body = "bindE (initialize env) (\<lambda>_.
          bindE (schedule env) (\<lambda>task.
          bindE (modifyE (\<lambda>s. s\<lparr>cronJob := Some task\<rparr>)) (\<lambda>_.
          bindE (modifyE (\<lambda>s. s\<lparr>isRunning := True\<rparr>)) (\<lambda>_.
          bindE (logger Info ''Bot started'') (\<lambda>_.
          runIteration env)))))"
  from stopped run have form: "tryCatch ?body ?h s = (r, s')"
    by (simp add: start_def bindE_getE)
  have caught: "r = Inr () \<and> \<not> isRunning s'"
    if "?body s = (Inl e, t)" "\<not> isRunning t" for e t
  proof -
    from form have "?h e t = (r, s')"
      by (simp only: tryCatch_run_Inl [of ?body, OF that(1)])
    then have "r = Inr () \<and> calm t s'" by (rule notify_handler)
    with that(2) show ?thesis by (simp add: calm_def)
  qed
  obtain ri t where i: "initialize env s = (ri, t)"
    by (cases "initialize env s")
  from i show ?thesis
  proof (cases rule: initialize_cases)
    case (failed e)
    note f = i [unfolded failed(1)]
    have "?body s = (Inl e, t)"
      by (simp only: bindE_run_Inl [of "initialize env", OF f])
    moreover from failed(2) stopped have "\<not> isRunning t" by (simp add: calm_def)
    ultimately have "r = Inr () \<and> \<not> isRunning s'" by (rule caught)
    then show ?thesis by simp
  next
    case started
    note f = i [unfolded started(1)]
    obtain rs w' where c: "cron_schedule (gw env) (world t) = (rs, w')"
      by (cases "cron_schedule (gw env) (world t)")
    show ?thesis
    proof (cases rs)
      case (Inl e)
      with c have sch: "schedule env t = (Inl e, t\<lparr>world := w'\<rparr>)"
        by (simp add: schedule_def)
      have "?body s = (Inl e, t\<lparr>world := w'\<rparr>)"
        by (simp only: bindE_run_Inr [of "initialize env", OF f]
            bindE_run_Inl [of "schedule env", OF sch])
      moreover from started(2) stopped have "\<not> isRunning (t\<lparr>world := w'\<rparr>)" by simp
      ultimately have "r = Inr () \<and> \<not> isRunning s'" by (rule caught)
      then show ?thesis by simp
    next
      case (Inr task)
      let ?t2 = "t\<lparr>world := w', cronTasks := cronTasks t + 1\<rparr>"
      let ?t3 = "?t2\<lparr>cronJob := Some task\<rparr>"
      let ?t4 = "?t3\<lparr>isRunning := True\<rparr>"
      let ?t5 = "?t4\<lparr>logs := logs ?t4 @ [(Info, ''Bot started'')]\<rparr>"
      from Inr c have sch: "schedule env t = (Inr task, ?t2)"
        by (simp add: schedule_def)
      obtain rr t6 where it: "runIteration env ?t5 = (rr, t6)"
        by (cases "runIteration env ?t5")
      from nothrow_runIteration it have rr: "rr = Inr ()"
        by (cases rr) (auto simp: nothrow_def)
      from quiet_runIteration it have q: "quiet ?t5 t6" by (rule keepsD)
      have "?body s = (Inr (), t6)"
        by (simp only: bindE_run_Inr [of "initialize env", OF f]
            bindE_run_Inr [of "schedule env", OF sch] bindE_modifyE bindE_logger
            it [unfolded rr])
      with form have "r = Inr ()" "s' = t6"
        by (simp_all only: tryCatch_run_Inr [of ?body] prod.inject)
      moreover from q have "cronTasks t6 = cronTasks t + 1" by (simp add: quiet_def)
      moreover have "botStarted ?t5 = botStarted t" by (simp add: botStarted_def)
      with quiet_botStarted [OF q] have "botStarted t6 = botStarted t" by simp
      ultimately show ?thesis using started(4,5) by simp
    qed
  qed
qed

text \<open>
  C9. \<^verbatim>\<open>start\<close> on a bot that is running changes nothing and logs a warning. So when
  a first \<^verbatim>\<open>start\<close> has brought a stopped bot to running, a second one right after
  it leaves one \<^verbatim>\<open>'Bot Started'\<close> notification and one scheduled timer in all.
  \<^verbatim>\<open>stop\<close> on a bot that is not running changes nothing and logs a warning: it sends
  no notification.
\<close>

theorem start_stop_idempotent:
  "(isRunning s \<longrightarrow>
      start env s = (Inr (), s\<lparr>logs := logs s @ [(Warn, ''Bot is already running'')]\<rparr>)) \<and>
   (\<not> isRunning s \<and> isRunning (snd (start env s)) \<longrightarrow>
      length (botStarted (snd (start env (snd (start env s))))) = length (botStarted s) + 1 \<and>
      cronTasks (snd (start env (snd (start env s)))) = cronTasks s + 1) \<and>
   (\<not> isRunning s \<or> cronJob s = None \<longrightarrow>
      stop env s = (Inr (), s\<lparr>logs := logs s @ [(Warn, ''Bot is not running'')]\<rparr>))"
proof (intro conjI impI)
  have noop: "start env x = (Inr (), x\<lparr>logs := logs x @ [(Warn, ''Bot is already running'')]\<rparr>)"
    if "isRunning x" for x
    using that by (simp add: start_def bindE_getE logger_def modifyE_def)
  {
    assume "isRunning s"
    then show "start env s = (Inr (), s\<lparr>logs := logs s @ [(Warn, ''Bot is already running'')]\<rparr>)"
      by (rule noop)
  }
  {
    assume a: "\<not> isRunning s \<and> isRunning (snd (start env s))"
    define s1 where "s1 = snd (start env s)"
    have "start env s = (fst (start env s), s1)" by (simp add: s1_def)
    with a start_from_stopped [of s env "fst (start env s)" s1]
    have first: "length (botStarted s1) = length (botStarted s) + 1" "cronTasks s1 = cronTasks s + 1"
      by (simp_all add: s1_def)
    from a have "isRunning s1" by (simp add: s1_def)
    then have "snd (start env s1) = s1\<lparr>logs := logs s1 @ [(Warn, ''Bot is already running'')]\<rparr>"
      by (simp only: noop snd_conv)
    then have "botStarted (snd (start env s1)) = botStarted s1"
        "cronTasks (snd (start env s1)) = cronTasks s1"
      by (simp_all add: botStarted_def)
    with first show "length (botStarted (snd (start env (snd (start env s))))) = length (botStarted s) + 1"
      and "cronTasks (snd (start env (snd (start env s)))) = cronTasks s + 1"
      by (simp_all add: s1_def)
  }
  {
    assume "\<not> isRunning s \<or> cronJob s = None"
    then show "stop env s = (Inr (), s\<lparr>logs := logs s @ [(Warn, ''Bot is not running'')]\<rparr>)"
      by (cases "cronJob s") (auto simp: stop_def bindE_getE logger_def modifyE_def)
  }
qed

theorem start_stop_idempotent_witness:
  "isRunning (snd (start sim_env (boot quiet_chain))) \<and>
   length (botStarted (snd (start sim_env (snd (start sim_env (boot quiet_chain)))))) = 1 \<and>
   cronTasks (snd (start sim_env (snd (start sim_env (boot quiet_chain))))) = 1 \<and>
   notified (snd (stop sim_env (boot quiet_chain))) = []"
proof -
  have running: "isRunning (snd (start sim_env (boot quiet_chain)))"
    by (simp add: loop_defs bot_defs async_defs sim_defs)
  have fresh: "\<not> isRunning (boot quiet_chain)" "botStarted (boot quiet_chain) = []"
      "cronTasks (boot quiet_chain) = 0" "cronJob (boot quiet_chain) = None"
      "notified (boot quiet_chain) = []"
    by (simp_all add: boot_def botStarted_def)
  note facts = start_stop_idempotent [of "boot quiet_chain" sim_env]
  from facts running fresh(1)
  have "length (botStarted (snd (start sim_env (snd (start sim_env (boot quiet_chain)))))) =
      length (botStarted (boot quiet_chain)) + 1"
    and "cronTasks (snd (start sim_env (snd (start sim_env (boot quiet_chain))))) =
      cronTasks (boot quiet_chain) + 1"
    by blast+
  moreover from facts fresh(4)
  have "stop sim_env (boot quiet_chain) =
      (Inr (), (boot quiet_chain)\<lparr>logs := logs (boot quiet_chain) @ [(Warn, ''Bot is not running'')]\<rparr>)"
    by blast
  then have "notified (snd (stop sim_env (boot quiet_chain))) = notified (boot quiet_chain)"
    by simp
  ultimately show ?thesis using running fresh by simp
qed

text \<open>
  C2. With the pool out of reach, \<^verbatim>\<open>start\<close> returns without throwing: its own
  \<^verbatim>\<open>catch\<close> block logs the error that \<^verbatim>\<open>initialize\<close> threw, sends a second error
  notification and ends. The bot is left stopped, with no timer.
\<close>

theorem start_swallows_pool_failure:
  "fst (start sim_env (boot down_chain)) = Inr () \<and>
   \<not> isRunning (snd (start sim_env (boot down_chain))) \<and>
   cronTasks (snd (start sim_env (boot down_chain))) = 0 \<and>
   map title (notified (snd (start sim_env (boot down_chain)))) = [''Bot Error'', ''Bot Error'']"
  by (simp add: loop_defs bot_defs async_defs sim_defs down_chain_def)

section \<open>The timer\<close>

subsection \<open>The log only grows\<close>

lemma extends_log_refl: "extends_log s s"
  by (simp add: extends_log_def)

lemma extends_log_trans: "extends_log s t \<Longrightarrow> extends_log t u \<Longrightarrow> extends_log s u"
  unfolding extends_log_def by (elim exE) simp

lemma closed_rel_extends_log: "closed_rel extends_log"
  unfolding closed_rel_def by (blast intro: extends_log_refl extends_log_trans)

lemma extends_log_world: "extends_log s (s\<lparr>world := w\<rparr>)"
  by (simp add: extends_log_def)

lemma extends_log_logger: "keeps extends_log (logger l msg)"
  by (simp add: keeps_def modifyE_def logger_def extends_log_def)

lemmas extends_log_intros = keeps_returnE keeps_throwE keeps_getE keeps_liftE keeps_modifyE
  keeps_ext keeps_bindE keeps_tryCatch keeps_if keeps_case_option keeps_case_prod keeps_Let
  closed_rel_extends_log extends_log_world extends_log_logger

lemma extends_log_sendNotification: "keeps extends_log (sendNotification env n)"
  unfolding sendNotification_def by (intro extends_log_intros; simp add: extends_log_def)

lemma extends_log_sendPositionUpdate: "keeps extends_log (sendPositionUpdate env a)"
  unfolding sendPositionUpdate_def by (rule extends_log_sendNotification)

lemma extends_log_sendErrorNotification: "keeps extends_log (sendErrorNotification env e)"
  unfolding sendErrorNotification_def by (rule extends_log_sendNotification)

lemma extends_log_getSolBalance: "keeps extends_log (getSolBalance env)"
  unfolding getSolBalance_def by (intro extends_log_intros)

lemma extends_log_getTokenBalances: "keeps extends_log (getTokenBalances env)"
  unfolding getTokenBalances_def by (intro extends_log_intros)

lemma extends_log_submit: "keeps extends_log (submit env tx)"
  by (auto simp: keeps_def submit_def extends_log_def split: prod.splits)

lemma extends_log_signAndSendTransaction: "keeps extends_log (signAndSendTransaction env tx)"
  unfolding signAndSendTransaction_def by (intro extends_log_intros extends_log_submit)

lemma extends_log_fetchPoolInfo: "keeps extends_log (fetchPoolInfo env)"
  unfolding fetchPoolInfo_def by (intro extends_log_intros; simp add: extends_log_def)

lemma extends_log_raydiumService_initialize: "keeps extends_log (raydiumService_initialize env)"
  unfolding raydiumService_initialize_def by (intro extends_log_intros extends_log_fetchPoolInfo)

lemma extends_log_ensurePoolInitialized: "keeps extends_log (ensurePoolInitialized env)"
  unfolding ensurePoolInitialized_def isPoolInitialized_def
  by (intro extends_log_intros extends_log_raydiumService_initialize)

lemma extends_log_createPosition: "keeps extends_log (createPosition env a b)"
  unfolding createPosition_def
  by (intro extends_log_intros extends_log_signAndSendTransaction extends_log_fetchPoolInfo
      extends_log_sendPositionUpdate extends_log_sendErrorNotification)

lemma extends_log_withdrawPosition: "keeps extends_log (withdrawPosition env p)"
  unfolding withdrawPosition_def
  by (intro extends_log_intros extends_log_signAndSendTransaction extends_log_fetchPoolInfo
      extends_log_sendPositionUpdate extends_log_sendErrorNotification)

lemma extends_log_getPositions: "keeps extends_log (getPositions env)"
  unfolding getPositions_def by (intro extends_log_intros extends_log_fetchPoolInfo)

lemma extends_log_checkPositions: "keeps extends_log (checkPositions env)"
  unfolding checkPositions_def by (intro extends_log_intros extends_log_getPositions)

lemma extends_log_checkPrice: "keeps extends_log (checkPrice env)"
  unfolding checkPrice_def
  by (intro extends_log_intros extends_log_ensurePoolInitialized; simp add: extends_log_def)

lemma extends_log_decide: "keeps extends_log (decide priceInfo positionInfo)"
  unfolding decide_def by (intro extends_log_intros)

lemma extends_log_createOptimalPosition: "keeps extends_log (createOptimalPosition env)"
  unfolding createOptimalPosition_def createOptimalPosition_try_def
  by (intro extends_log_intros extends_log_createPosition extends_log_fetchPoolInfo
      extends_log_ensurePoolInitialized extends_log_getTokenBalances extends_log_getPositions
      extends_log_sendErrorNotification)


lemma extends_log_formatBalances: "keeps extends_log (formatBalances env balances formatted)"
  unfolding keeps_def
proof (intro allI impI)
  fix s r s'
  assume "formatBalances env balances formatted s = (r, s')"
  then show "extends_log s s'"
  proof (induction env balances formatted s rule: formatBalances.induct)
    case (1 env formattedBalances s)
    then show ?case by (auto simp: extends_log_refl)
  next
    case (2 env m balance rest formattedBalances s)
    obtain ra s1 where a: "ext (raydiumService_getTokenAMint (gw env)) s = (ra, s1)"
      by (cases "ext (raydiumService_getTokenAMint (gw env)) s")
    have c1: "extends_log s s1"
      using a by (rule keepsD [OF keeps_ext [of extends_log, OF extends_log_world]])
    obtain rb s2 where b: "ext (raydiumService_getTokenBMint (gw env)) s1 = (rb, s2)"
      by (cases "ext (raydiumService_getTokenBMint (gw env)) s1")
    have c2: "extends_log s1 s2"
      using b by (rule keepsD [OF keeps_ext [of extends_log, OF extends_log_world]])
    show ?case
    proof (cases ra)
      case (Inl e)
      with a "2.prems" c1 show ?thesis by simp
    next
      case ra: (Inr mintA')
      show ?thesis
      proof (cases "m = mintA'")
        case True
        with a ra "2.prems" have "extends_log s1 s'" by (simp add: "2.IH"(1))
        with c1 show ?thesis by (rule extends_log_trans)
      next
        case False
        show ?thesis
        proof (cases rb)
          case (Inl e)
          with a ra False b "2.prems" c1 c2 show ?thesis by (auto intro: extends_log_trans)
        next
          case rb: (Inr mintB')
          have "extends_log s2 s'"
            using a ra False b rb "2.prems" "2.IH"(2,3) by (cases "m = mintB'") simp_all
          with c1 c2 show ?thesis by (blast intro: extends_log_trans)
        qed
      qed
    qed
  qed
qed

lemma extends_log_checkWalletBalances: "keeps extends_log (checkWalletBalances env)"
  unfolding checkWalletBalances_def
  by (intro extends_log_intros extends_log_getSolBalance extends_log_getTokenBalances
      extends_log_formatBalances extends_log_sendNotification)

lemma extends_log_withdrawEach: "keeps extends_log (withdrawEach env positions signatures)"
  unfolding keeps_def
proof (intro allI impI)
  fix s r s'
  assume "withdrawEach env positions signatures s = (r, s')"
  then show "extends_log s s'"
  proof (induction positions arbitrary: signatures s)
    case Nil
    then show ?case by (auto simp: extends_log_refl)
  next
    case (Cons position rest)
    let ?step = "bindE (logger Info ''Withdrawing out-of-range position'')
                   (\<lambda>_. withdrawPosition env (positionId position))"
    obtain r1 s1 where step: "?step s = (r1, s1)" by (cases "?step s")
    have "keeps extends_log ?step" by (intro extends_log_intros extends_log_withdrawPosition)
    then have c1: "extends_log s s1" using step by (rule keepsD)
    show ?case
    proof (cases r1)
      case (Inl e)
      with step Cons.prems c1 show ?thesis by simp
    next
      case (Inr signature)
      with step Cons.prems have "withdrawEach env rest (signatures @ [signature]) s1 = (r, s')"
        by simp
      then have "extends_log s1 s'" by (rule Cons.IH)
      with c1 show ?thesis by (rule extends_log_trans)
    qed
  qed
qed

lemma extends_log_withdrawOutOfRangePositions:
  "keeps extends_log (withdrawOutOfRangePositions env)"
  unfolding withdrawOutOfRangePositions_def
  by (intro extends_log_intros extends_log_withdrawEach extends_log_getPositions
      extends_log_sendErrorNotification)

lemma extends_log_rebalanceIfNeeded: "keeps extends_log (rebalanceIfNeeded env)"
  unfolding rebalanceIfNeeded_def
  by (intro extends_log_intros extends_log_createOptimalPosition extends_log_getPositions
      extends_log_withdrawOutOfRangePositions extends_log_sendErrorNotification)

subsection \<open>A tick of the timer\<close>

text \<open>An iteration writes \<^verbatim>\<open>'Running bot iteration'\<close> first, whatever happens next.\<close>

lemma first_log:
  assumes "keeps extends_log k"
  shows "\<exists>ls. logs (snd (bindE (logger l msg) (\<lambda>_. k) s)) = logs s @ (l, msg) # ls"
proof -
  let ?s0 = "s\<lparr>logs := logs s @ [(l, msg)]\<rparr>"
  obtain r s' where run: "k ?s0 = (r, s')" by (cases "k ?s0")
  with assms have "extends_log ?s0 s'" by (rule keepsD)
  then obtain ls where "logs s' = logs ?s0 @ ls" unfolding extends_log_def ..
  with run show ?thesis by (simp add: bindE_logger)
qed

lemma runIteration_logs:
  "\<exists>ls. logs (snd (runIteration env s)) = logs s @ (Info, ''Running bot iteration'') # ls"
  unfolding runIteration_def
  by (rule first_log)
    (intro extends_log_intros extends_log_checkPrice extends_log_checkPositions
      extends_log_checkWalletBalances extends_log_decide extends_log_rebalanceIfNeeded
      extends_log_sendErrorNotification)

text \<open>
  C3. The callback that \<^verbatim>\<open>start\<close> schedules has no single-flight guard. In every state
  of the bot, so also in one where an earlier iteration has not finished, a tick does
  exactly what \<^verbatim>\<open>runIteration\<close> does from that state: it throws nothing, and the first
  line it logs is \<^verbatim>\<open>'Running bot iteration'\<close>, not that the tick is skipped. No tick is
  skipped, and a tick that fires during an iteration starts a second one beside it.
\<close>

theorem cronTick_runs_iteration:
  "cronTick env s = runIteration env s \<and> fst (cronTick env s) = Inr () \<and>
   (\<exists>ls. logs (snd (cronTick env s)) = logs s @ (Info, ''Running bot iteration'') # ls)"
proof -
  obtain r s' where run: "runIteration env s = (r, s')" by (cases "runIteration env s")
  with nothrow_runIteration [of env] have "r = Inr ()"
    by (cases r) (auto dest: nothrowD)
  with run have same: "cronTick env s = runIteration env s"
    by (simp add: cronTick_def tryCatch_def)
  moreover from run \<open>r = Inr ()\<close> have "fst (runIteration env s) = Inr ()" by simp
  ultimately show ?thesis using runIteration_logs [of env s] by simp
qed

text \<open>The two states of the started bot, written out.\<close>

lemma started_bot_state:
  "started_bot =
     \<lparr>world = quiet_chain, poolInfo = Some sol_usdc,
      tokenA = Some \<lparr>mint = ''SOL-mint'', symbol = ''SOL'', decimals = 9\<rparr>,
      tokenB = Some \<lparr>mint = ''USDC-mint'', symbol = ''USDC'', decimals = 6\<rparr>,
      lastCheckedPrice = Some 100, isRunning = True, cronJob = Some 1,
      notified = [\<lparr>title = ''Bot Started'', color = 39423\<rparr>], submitted = [], cronTasks = 1,
      logs =
        [(Info, ''Initializing bot...''), (Info, ''Pool info fetched''),
         (Info, ''Raydium service fully initialized''), (Debug, ''Discord notification sent''),
         (Info, ''Bot initialized successfully''), (Info, ''Bot started''),
         (Info, ''Running bot iteration''), (Info, ''Position status''),
         (Info, ''Wallet balances''), (Info, ''Creating initial position''),
         (Info, ''Pool info fetched''), (Warn, ''Missing token balances needed for position''),
         (Info, ''No rebalancing performed''), (Info, ''Bot iteration completed successfully'')]\<rparr>"
  unfolding started_bot_def by (simp add: loop_defs bot_defs async_defs sim_defs)

lemma in_flight_state:
  "in_flight = started_bot\<lparr>logs := logs started_bot @ [(Info, ''Running bot iteration'')]\<rparr>"
  unfolding in_flight_def started_bot_state by (simp add: loop_defs bot_defs async_defs sim_defs)

text \<open>
  The bot started on the quiet chain, a tick firing while an iteration waits for
  \<^verbatim>\<open>checkPositions\<close>: the iteration in flight has logged its start and not its end, and
  the tick runs a whole second iteration, from its start to its end.
\<close>

theorem cronTick_overlap_counterexample:
  "isRunning in_flight \<and>
   logs in_flight = logs started_bot @ [(Info, ''Running bot iteration'')] \<and>
   cronTick sim_env in_flight =
     (Inr (), in_flight\<lparr>logs := logs in_flight @
        [(Info, ''Running bot iteration''), (Info, ''Position status''),
         (Info, ''Wallet balances''), (Info, ''Creating initial position''),
         (Info, ''Pool info fetched''), (Warn, ''Missing token balances needed for position''),
         (Info, ''No rebalancing performed''), (Info, ''Bot iteration completed successfully'')]\<rparr>)"
  unfolding in_flight_state started_bot_state
  by (simp add: cronTick_def loop_defs bot_defs async_defs sim_defs)

end
